theory Spec2Isabelle
  imports Complex_Main "HOL-Library.Sublist"
begin

section \<open>Platform values\<close>

text \<open>
  The two hooks and the two service classes are glue around browser facilities:
  \<^verbatim>\<open>fetch\<close>, \<^verbatim>\<open>Response\<close>, \<^verbatim>\<open>Blob\<close>, \<^verbatim>\<open>AudioContext.decodeAudioData\<close> and \<^verbatim>\<open>FileReader\<close>.
  What those facilities answer is an input of the model. A string is a list of
  bytes (\<^typ>\<open>char\<close> is an 8-bit character), so the text and the bytes of a response body
  are the same list.
\<close>

text \<open>A thrown value: an \<^verbatim>\<open>Error\<close> with its message, or anything else.\<close>

datatype js_exn = JsError string | NonError

text \<open>\<^verbatim>\<open>err instanceof Error ? err.message : 'Unknown error'\<close>\<close>

definition errorMessage :: "js_exn \<Rightarrow> string" where
  "errorMessage err = (case err of JsError m \<Rightarrow> m | NonError \<Rightarrow> ''Unknown error'')"

text \<open>A value inside an object literal handed to \<^verbatim>\<open>JSON.stringify\<close>.\<close>

datatype json = JString string | JNumber real | JUndefined

type_synonym obj = "(string \<times> json) list"

text \<open>The argument of a \<^verbatim>\<open>fetch\<close> call.\<close>

record Request =
  url :: string
  "method" :: string
  headers :: "(string \<times> string) list"
  body :: "obj option"

text \<open>
  A response that has arrived completely: status line, the content type (which becomes
  the type of \<^verbatim>\<open>response.blob()\<close>) and the bytes of the body (\<^verbatim>\<open>response.text()\<close> reads
  the same bytes).
\<close>

record Response =
  status :: nat
  statusText :: string
  contentType :: string
  bytes :: string

text \<open>\<^verbatim>\<open>response.ok\<close>: the status is in the range 200 to 299.\<close>

definition ok :: "Response \<Rightarrow> bool" where
  "ok r = (200 \<le> status r \<and> status r \<le> 299)"

text \<open>How a \<^verbatim>\<open>fetch\<close> promise settles.\<close>

datatype fetch_outcome = Rejected js_exn | Resolved Response

record Blob =
  blob_type :: string
  blob_bytes :: string

text \<open>\<^verbatim>\<open>a || d\<close> on an optional string: \<^verbatim>\<open>undefined\<close> and the empty string are falsy.\<close>

definition or_default :: "string option \<Rightarrow> string \<Rightarrow> string" where
  "or_default a d = (case a of None \<Rightarrow> d | Some x \<Rightarrow> if x = [] then d else x)"

text \<open>\<^verbatim>\<open>a ?? d\<close>: only \<^verbatim>\<open>undefined\<close> gives way to the default.\<close>

definition nullish :: "json \<Rightarrow> json \<Rightarrow> json" where
  "nullish a d = (case a of JUndefined \<Rightarrow> d | _ \<Rightarrow> a)"

text \<open>A number in a template literal: the decimal digits of a status code.\<close>

definition digit :: "nat \<Rightarrow> char" where
  "digit d = ''0123456789'' ! d"

function decimal :: "nat \<Rightarrow> string" where
  "decimal n = (if n < 10 then [digit n] else decimal (n div 10) @ [digit (n mod 10)])"
  by pat_completeness auto
termination
  by (relation "measure id") auto

declare decimal.simps [simp del]

section \<open>SpeechifyService\<close>

text \<open>Both service classes keep a \<^verbatim>\<open>baseUrl\<close>.\<close>

record Service =
  baseUrl :: string

record SpeechifyService = Service +
  apiKey :: string

text \<open>The constructor keeps the key; \<^verbatim>\<open>baseUrl\<close> is a fixed private field.\<close>

definition new_SpeechifyService :: "string \<Rightarrow> SpeechifyService" where
  "new_SpeechifyService key = \<lparr>baseUrl = ''https://api.sws.speechify.com'', apiKey = key\<rparr>"

text \<open>
  \<^verbatim>\<open>SpeechifyService.textToSpeech\<close> is an async method: it builds one request, awaits
  \<^verbatim>\<open>fetch\<close>, and settles from the answer. The request it builds:
\<close>

definition speechify_request ::
  "SpeechifyService \<Rightarrow> string \<Rightarrow> string option \<Rightarrow> string option \<Rightarrow> Request" where
  "speechify_request svc txt voiceId language =
     \<lparr>url = baseUrl svc @ ''/v1/audio/stream'',
      method = ''POST'',
      headers = [(''Authorization'', ''Bearer '' @ apiKey svc),
                 (''Content-Type'', ''application/json''),
                 (''Accept'', ''audio/mpeg'')],
      body = Some [(''input'', JString txt),
                   (''voice_id'', JString (or_default voiceId ''default'')),
                   (''language'', JString (or_default language ''en-US''))]\<rparr>"

text \<open>
  What the method settles to once \<^verbatim>\<open>fetch\<close> has settled: a rejection is rethrown by the
  \<^verbatim>\<open>catch\<close> block, a response that is not \<^verbatim>\<open>ok\<close> throws the formatted error, any other
  response gives \<^verbatim>\<open>response.blob()\<close>.
\<close>

definition speechify_settle :: "fetch_outcome \<Rightarrow> js_exn + Blob" where
  "speechify_settle out =
     (case out of
        Rejected e \<Rightarrow> Inl e
      | Resolved r \<Rightarrow>
          if \<not> ok r
          then Inl (JsError (''Speechify API error: '' @ decimal (status r) @ '' '' @
                             statusText r @ '' - '' @ bytes r))
          else Inr \<lparr>blob_type = contentType r, blob_bytes = bytes r\<rparr>)"

text \<open>
  The whole method against a network given as a function: the requests it sent and
  what it settled to.
\<close>

definition speechify_textToSpeech ::
  "SpeechifyService \<Rightarrow> (Request \<Rightarrow> fetch_outcome) \<Rightarrow> string \<Rightarrow> string option \<Rightarrow> string option
     \<Rightarrow> Request list \<times> (js_exn + Blob)" where
  "speechify_textToSpeech svc fetch txt voiceId language =
     (let rq = speechify_request svc txt voiceId language
      in ([rq], speechify_settle (fetch rq)))"

section \<open>HiggsAudioService\<close>

text \<open>
  The configuration object of the constructor is kept as an object literal: a key can be
  missing, or present with a value that may be \<^verbatim>\<open>undefined\<close>, and the spread at the end of
  the constructor tells the two apart.
\<close>

definition get_prop :: "obj \<Rightarrow> string \<Rightarrow> json" where
  "get_prop ob k = (case map_of ob k of None \<Rightarrow> JUndefined | Some v \<Rightarrow> v)"

text \<open>\<^verbatim>\<open>a || d\<close> on a property: \<^verbatim>\<open>undefined\<close>, the empty string and 0 are falsy.\<close>

definition falsy :: "json \<Rightarrow> bool" where
  "falsy a = (case a of JUndefined \<Rightarrow> True | JString x \<Rightarrow> x = [] | JNumber x \<Rightarrow> x = 0)"

definition or_json :: "json \<Rightarrow> json \<Rightarrow> json" where
  "or_json a d = (if falsy a then d else a)"

text \<open>\<^verbatim>\<open>{...a, ...b}\<close>, read through \<^const>\<open>get_prop\<close>: a key of \<^verbatim>\<open>b\<close> hides the same key of \<^verbatim>\<open>a\<close>.\<close>

definition spread :: "obj \<Rightarrow> obj \<Rightarrow> obj" where
  "spread a b = b @ a"

definition json_string :: "json \<Rightarrow> string" where
  "json_string a = (case a of JString x \<Rightarrow> x | _ \<Rightarrow> [])"

record HiggsAudioService = Service +
  config :: obj

definition new_HiggsAudioService :: "obj \<Rightarrow> HiggsAudioService" where
  "new_HiggsAudioService cfg =
     \<lparr>baseUrl = json_string (or_json (get_prop cfg ''baseUrl'') (JString ''http://localhost:8000'')),
      config = spread
        [(''modelPath'', or_json (get_prop cfg ''modelPath'')
                           (JString ''bosonai/higgs-audio-v2-generation-3B-base'')),
         (''audioTokenizerPath'', or_json (get_prop cfg ''audioTokenizerPath'')
                           (JString ''bosonai/higgs-audio-v2-tokenizer'')),
         (''temperature'', nullish (get_prop cfg ''temperature'') (JNumber 0.3)),
         (''topP'', nullish (get_prop cfg ''topP'') (JNumber 0.95)),
         (''topK'', nullish (get_prop cfg ''topK'') (JNumber 50)),
         (''maxNewTokens'', nullish (get_prop cfg ''maxNewTokens'') (JNumber 1024))]
        cfg\<rparr>"

text \<open>The \<^verbatim>\<open>options\<close> argument of \<^verbatim>\<open>HiggsAudioService.textToSpeech\<close>.\<close>

record HiggsOptions =
  refAudio :: "string option"
  temperature :: "real option"
  topP :: "real option"
  topK :: "real option"
  maxNewTokens :: "real option"

definition opt_string :: "string option \<Rightarrow> json" where
  "opt_string a = (case a of None \<Rightarrow> JUndefined | Some x \<Rightarrow> JString x)"

definition opt_number :: "real option \<Rightarrow> json" where
  "opt_number a = (case a of None \<Rightarrow> JUndefined | Some x \<Rightarrow> JNumber x)"

definition higgs_request :: "HiggsAudioService \<Rightarrow> string \<Rightarrow> HiggsOptions \<Rightarrow> Request" where
  "higgs_request svc txt opts =
     \<lparr>url = baseUrl svc @ ''/v1/audio/generate'',
      method = ''POST'',
      headers = [(''Content-Type'', ''application/json''), (''Accept'', ''audio/wav'')],
      body = Some
        [(''text'', JString txt),
         (''ref_audio'', opt_string (refAudio opts)),
         (''temperature'', nullish (opt_number (temperature opts)) (get_prop (config svc) ''temperature'')),
         (''top_p'', nullish (opt_number (topP opts)) (get_prop (config svc) ''topP'')),
         (''top_k'', nullish (opt_number (topK opts)) (get_prop (config svc) ''topK'')),
         (''max_new_tokens'',
            nullish (opt_number (maxNewTokens opts)) (get_prop (config svc) ''maxNewTokens''))]\<rparr>"

definition higgs_settle :: "fetch_outcome \<Rightarrow> js_exn + Blob" where
  "higgs_settle out =
     (case out of
        Rejected e \<Rightarrow> Inl e
      | Resolved r \<Rightarrow>
          if \<not> ok r
          then Inl (JsError (''Higgs Audio API error: '' @ decimal (status r) @ '' '' @
                             statusText r @ '' - '' @ bytes r))
          else Inr \<lparr>blob_type = contentType r, blob_bytes = bytes r\<rparr>)"

definition higgs_textToSpeech ::
  "HiggsAudioService \<Rightarrow> (Request \<Rightarrow> fetch_outcome) \<Rightarrow> string \<Rightarrow> HiggsOptions
     \<Rightarrow> Request list \<times> (js_exn + Blob)" where
  "higgs_textToSpeech svc fetch txt opts =
     (let rq = higgs_request svc txt opts in ([rq], higgs_settle (fetch rq)))"

text \<open>
  \<^verbatim>\<open>checkHealth\<close>: one \<^verbatim>\<open>GET\<close> of \<^verbatim>\<open>/health\<close>; \<^verbatim>\<open>response.ok\<close> is the answer, and a
  rejected \<^verbatim>\<open>fetch\<close> is caught and answered \<^verbatim>\<open>false\<close>.
\<close>

definition health_request :: "HiggsAudioService \<Rightarrow> Request" where
  "health_request svc =
     \<lparr>url = baseUrl svc @ ''/health'', method = ''GET'', headers = [], body = None\<rparr>"

definition health_settle :: "fetch_outcome \<Rightarrow> bool" where
  "health_settle out = (case out of Rejected e \<Rightarrow> False | Resolved r \<Rightarrow> ok r)"

definition checkHealth ::
  "HiggsAudioService \<Rightarrow> (Request \<Rightarrow> fetch_outcome) \<Rightarrow> Request list \<times> bool" where
  "checkHealth svc fetch =
     (let rq = health_request svc in ([rq], health_settle (fetch rq)))"

section \<open>FileReader.readAsDataURL\<close>

text \<open>
  The hooks hand the blob to the browser's \<^verbatim>\<open>FileReader\<close> and publish its result. The
  conversion is the browser's, not the repository's: it is written out here after the File
  API and RFC 4648, as \<^verbatim>\<open>data:\<close>, the type of the blob, \<^verbatim>\<open>;base64,\<close> and the base64 text
  of the bytes. Reading a handle back splits it at the first comma and decodes the base64
  text, as a player does with a \<^verbatim>\<open>data:\<close> URL.
\<close>

definition alphabet :: string where
  "alphabet = ''ABCDEFGHIJKLMNOPQRSTUVWXYZabcdefghijklmnopqrstuvwxyz0123456789+/''"

definition sextet_char :: "nat \<Rightarrow> char" where
  "sextet_char n = alphabet ! n"

fun index_of :: "'a \<Rightarrow> 'a list \<Rightarrow> nat option" where
  "index_of x [] = None"
| "index_of x (y # ys) = (if x = y then Some 0 else map_option Suc (index_of x ys))"

definition char_sextet :: "char \<Rightarrow> nat option" where
  "char_sextet c = index_of c alphabet"

text \<open>
  Three bytes are 24 bits, cut into four groups of six; a last group of one or two bytes
  is filled with zero bits and padded with \<^verbatim>\<open>=\<close>.
\<close>

fun base64 :: "string \<Rightarrow> string" where
  "base64 (a # b # c # rest) =
     (let x = of_char a :: nat; y = of_char b :: nat; z = of_char c :: nat
      in sextet_char (x div 4) # sextet_char (x mod 4 * 16 + y div 16) #
         sextet_char (y mod 16 * 4 + z div 64) # sextet_char (z mod 64) # base64 rest)"
| "base64 [a, b] =
     (let x = of_char a :: nat; y = of_char b :: nat
      in [sextet_char (x div 4), sextet_char (x mod 4 * 16 + y div 16),
          sextet_char (y mod 16 * 4), CHR ''=''])"
| "base64 [a] =
     (let x = of_char a :: nat
      in [sextet_char (x div 4), sextet_char (x mod 4 * 16), CHR ''='', CHR ''=''])"
| "base64 [] = []"

text \<open>
  One group of four characters back to its bytes; padding is accepted in the last group
  only.
\<close>

definition unbase64_group :: "char \<Rightarrow> char \<Rightarrow> char \<Rightarrow> char \<Rightarrow> bool \<Rightarrow> string option" where
  "unbase64_group w x y z final =
     (case (char_sextet w, char_sextet x) of
        (Some p, Some q) \<Rightarrow>
          if final \<and> y = CHR ''='' \<and> z = CHR ''=''
          then Some [char_of (p * 4 + q div 16)]
          else (case char_sextet y of
                  None \<Rightarrow> None
                | Some r \<Rightarrow>
                    if final \<and> z = CHR ''=''
                    then Some [char_of (p * 4 + q div 16), char_of (q mod 16 * 16 + r div 4)]
                    else (case char_sextet z of
                            None \<Rightarrow> None
                          | Some t \<Rightarrow>
                              Some [char_of (p * 4 + q div 16),
                                    char_of (q mod 16 * 16 + r div 4),
                                    char_of (r mod 4 * 64 + t)]))
      | _ \<Rightarrow> None)"

fun unbase64 :: "string \<Rightarrow> string option" where
  "unbase64 [] = Some []"
| "unbase64 (w # x # y # z # rest) =
     (case unbase64_group w x y z (rest = []) of
        None \<Rightarrow> None
      | Some bs \<Rightarrow> map_option ((@) bs) (unbase64 rest))"
| "unbase64 _ = None"

definition readAsDataURL :: "Blob \<Rightarrow> string" where
  "readAsDataURL b = ''data:'' @ blob_type b @ '';base64,'' @ base64 (blob_bytes b)"

definition dataURL_bytes :: "string \<Rightarrow> string option" where
  "dataURL_bytes u =
     (if take 5 u = ''data:''
      then (let rest = drop 5 u;
                meta = takeWhile (\<lambda>c. c \<noteq> CHR '','') rest
            in if length meta < length rest \<and> suffix '';base64'' meta
               then unbase64 (drop (Suc (length meta)) rest)
               else None)
      else None)"

section \<open>The state of a hook\<close>

text \<open>
  A hook instance holds four pieces of React state (\<^verbatim>\<open>narrationAudioPath\<close>,
  \<^verbatim>\<open>isGenerating\<close>, \<^verbatim>\<open>speechDuration\<close>, \<^verbatim>\<open>error\<close>) and the ref of the audio context. Beside
  them the model keeps what is going on around the instance:
  \<^item> \<^verbatim>\<open>tasks\<close>: the calls of \<^verbatim>\<open>generateSpeech\<close> that passed the guard and are suspended at
    an \<^verbatim>\<open>await\<close>, each with the point where it waits;
  \<^item> \<^verbatim>\<open>readers\<close>: the blobs of the \<^verbatim>\<open>FileReader\<close>s that are reading and have not fired
    \<^verbatim>\<open>onloadend\<close>;
  \<^item> \<^verbatim>\<open>requests\<close>: every \<^verbatim>\<open>fetch\<close> call made so far, in order.

  The state setters take effect at once; a state of the model is what the hook returns at
  the next render.
\<close>

datatype AudioContext = AudioContext

datatype task = AwaitHealth | AwaitSynth | AwaitDecode Blob

record hook =
  narrationAudioPath :: "string option"
  isGenerating :: bool
  speechDuration :: real
  error :: "string option"
  audioContextRef :: "AudioContext option"
  tasks :: "task list"
  readers :: "Blob list"
  requests :: "Request list"

text \<open>
  What happens to an instance: the consumer calls \<^verbatim>\<open>generateSpeech\<close>, the auto-generate
  effect runs after a render, and the promises and the reader of a suspended call settle.
  \<^verbatim>\<open>generateSpeech\<close> is a callback made by \<^verbatim>\<open>useCallback\<close> in a render: the \<^verbatim>\<open>isGenerating\<close>
  its guard reads is the constant of that render (it is in the dependency list for that
  reason), and \<^verbatim>\<open>setIsGenerating\<close> does not change it. \<^verbatim>\<open>Trigger\<close> is a call through a
  callback whose render shows the present state: no setter has run since that render.
  \<^verbatim>\<open>StaleTrigger\<close> is a call through a callback made while \<^verbatim>\<open>isGenerating\<close> was \<^verbatim>\<open>false\<close>,
  whatever the state is by now: the second of two calls in a row is one.
  \<^verbatim>\<open>Decoded\<close> carries the rejection of \<^verbatim>\<open>decodeAudioData\<close> or the \<^verbatim>\<open>duration\<close> of the decoded
  buffer; \<^verbatim>\<open>LoadEnd\<close> says whether the reader has a result (\<^verbatim>\<open>reader.result\<close> is \<^verbatim>\<open>null\<close> after
  a failed read); \<^verbatim>\<open>ProbeSettled\<close> is the \<^verbatim>\<open>checkHealth\<close> call made on mount by
  \<^verbatim>\<open>useHiggsAudio\<close>.
\<close>

datatype event =
    Trigger
  | StaleTrigger
  | AutoGenerate
  | HealthSettled nat fetch_outcome
  | SynthSettled nat fetch_outcome
  | Decoded nat "js_exn + real"
  | LoadEnd nat bool
  | ProbeSettled fetch_outcome

text \<open>The four states of the specification, read off the fields the hook returns.\<close>

datatype GenerationState = Idle | InFlight | Ready | Failed

definition generationState :: "'a hook_scheme \<Rightarrow> GenerationState" where
  "generationState s =
     (if isGenerating s then InFlight
      else if error s \<noteq> None then Failed
      else if narrationAudioPath s \<noteq> None then Ready
      else Idle)"

definition remove_nth :: "nat \<Rightarrow> 'a list \<Rightarrow> 'a list" where
  "remove_nth i xs = take i xs @ drop (Suc i) xs"

text \<open>A destructuring default: \<^verbatim>\<open>voiceId = 'oliver'\<close> applies to \<^verbatim>\<open>undefined\<close> only.\<close>

definition param_default :: "'a option \<Rightarrow> 'a \<Rightarrow> 'a" where
  "param_default a d = (case a of None \<Rightarrow> d | Some x \<Rightarrow> x)"

text \<open>\<^verbatim>\<open>!narrationAudioPath\<close>: \<^verbatim>\<open>null\<close> and the empty string are falsy.\<close>

definition no_path :: "string option \<Rightarrow> bool" where
  "no_path a = (case a of None \<Rightarrow> True | Some u \<Rightarrow> u = [])"

text \<open>
  The tail of the \<^verbatim>\<open>try\<close> block: a new \<^verbatim>\<open>FileReader\<close> starts reading the blob. Nothing is
  awaited, so the \<^verbatim>\<open>finally\<close> block follows at once: \<^verbatim>\<open>setIsGenerating(false)\<close>, and call
  \<^verbatim>\<open>i\<close> is over.
\<close>

definition finally_block :: "nat \<Rightarrow> 'a hook_scheme \<Rightarrow> 'a hook_scheme" where
  "finally_block i s = s\<lparr>isGenerating := False, tasks := remove_nth i (tasks s)\<rparr>"

definition convert :: "nat \<Rightarrow> Blob \<Rightarrow> 'a hook_scheme \<Rightarrow> 'a hook_scheme" where
  "convert i b s = finally_block i (s\<lparr>readers := readers s @ [b]\<rparr>)"

text \<open>
  After \<^verbatim>\<open>textToSpeech\<close> has given a blob: with an audio context the call awaits
  \<^verbatim>\<open>decodeAudioData\<close>, without one it goes on to the conversion.
\<close>

definition decode :: "nat \<Rightarrow> Blob \<Rightarrow> 'a hook_scheme \<Rightarrow> 'a hook_scheme" where
  "decode i b s =
     (if audioContextRef s \<noteq> None then s\<lparr>tasks := (tasks s)[i := AwaitDecode b]\<rparr>
      else convert i b s)"

text \<open>\<^verbatim>\<open>reader.onloadend\<close>: the result of reader \<^verbatim>\<open>i\<close> becomes the path.\<close>

definition onloadend :: "nat \<Rightarrow> bool \<Rightarrow> 'a hook_scheme \<Rightarrow> 'a hook_scheme" where
  "onloadend i has_result s =
     (if i < length (readers s)
      then s\<lparr>narrationAudioPath :=
                (if has_result then Some (readAsDataURL (readers s ! i)) else None),
             readers := remove_nth i (readers s)\<rparr>
      else s)"

section \<open>useSpeechifyTTS\<close>

text \<open>
  The props. Both hooks take \<^verbatim>\<open>text\<close> and \<^verbatim>\<open>autoGenerate\<close>; the field for \<^verbatim>\<open>text\<close> is named
  \<open>textProp\<close>, since \<open>text\<close> is a keyword here. An optional prop that is left out is
  \<open>None\<close>.
\<close>

record UseTTSConfig =
  textProp :: string
  autoGenerate :: "bool option"

record UseSpeechifyTTSConfig = UseTTSConfig +
  voiceId :: "string option"
  language :: "string option"

record speechify_hook = hook +
  speechifyServiceRef :: "SpeechifyService option"

text \<open>The values of \<^verbatim>\<open>useState\<close> and \<^verbatim>\<open>useRef\<close> at the first render.\<close>

definition speechify_initial :: speechify_hook where
  "speechify_initial =
     \<lparr>narrationAudioPath = None, isGenerating = False, speechDuration = 0, error = None,
      audioContextRef = None, tasks = [], readers = [], requests = [],
      speechifyServiceRef = None\<rparr>"

text \<open>
  The first effect, with \<^verbatim>\<open>SPEECHIFY_CONFIG.apiKey\<close> as its argument (the configuration
  module is written by the user).
\<close>

definition speechify_mount :: "string \<Rightarrow> speechify_hook \<Rightarrow> speechify_hook" where
  "speechify_mount key s =
     (if key \<noteq> [] then s\<lparr>speechifyServiceRef := Some (new_SpeechifyService key)\<rparr>
      else s\<lparr>error := Some ''Speechify API key not configured''\<rparr>)
     \<lparr>audioContextRef := Some AudioContext\<rparr>"

text \<open>
  \<^verbatim>\<open>generateSpeech\<close> up to its first \<^verbatim>\<open>await\<close>: the guard, the two setters, the call. The
  second argument is the \<^verbatim>\<open>isGenerating\<close> the callback has closed over; the ref is read when
  the call is made.
\<close>

definition speechify_generateSpeech ::
  "UseSpeechifyTTSConfig \<Rightarrow> bool \<Rightarrow> speechify_hook \<Rightarrow> speechify_hook" where
  "speechify_generateSpeech p seen s =
     (case speechifyServiceRef s of
        None \<Rightarrow> s
      | Some svc \<Rightarrow>
          if seen \<or> textProp p = [] then s
          else s\<lparr>isGenerating := True, error := None,
                 requests := requests s @
                   [speechify_request svc (textProp p)
                      (Some (param_default (voiceId p) ''oliver''))
                      (Some (param_default (language p) ''en-US''))],
                 tasks := tasks s @ [AwaitSynth]\<rparr>)"

text \<open>The \<^verbatim>\<open>catch\<close> block and the \<^verbatim>\<open>finally\<close> block after it.\<close>

definition speechify_catch :: "nat \<Rightarrow> js_exn \<Rightarrow> speechify_hook \<Rightarrow> speechify_hook" where
  "speechify_catch i e s = finally_block i (s\<lparr>error := Some (errorMessage e)\<rparr>)"

fun speechify_step :: "UseSpeechifyTTSConfig \<Rightarrow> speechify_hook \<Rightarrow> event \<Rightarrow> speechify_hook" where
  "speechify_step p s Trigger = speechify_generateSpeech p (isGenerating s) s"
| "speechify_step p s StaleTrigger = speechify_generateSpeech p False s"
| "speechify_step p s AutoGenerate =
     (if param_default (autoGenerate p) True \<and> speechifyServiceRef s \<noteq> None \<and> textProp p \<noteq> [] \<and>
         no_path (narrationAudioPath s) \<and> \<not> isGenerating s
      then speechify_generateSpeech p (isGenerating s) s else s)"
| "speechify_step p s (SynthSettled i out) =
     (if i < length (tasks s) \<and> tasks s ! i = AwaitSynth
      then (case speechify_settle out of
              Inl e \<Rightarrow> speechify_catch i e s
            | Inr b \<Rightarrow> decode i b s)
      else s)"
| "speechify_step p s (Decoded i res) =
     (if i < length (tasks s)
      then (case tasks s ! i of
              AwaitDecode b \<Rightarrow>
                (case res of
                   Inl e \<Rightarrow> speechify_catch i e s
                 | Inr d \<Rightarrow> convert i b (s\<lparr>speechDuration := d\<rparr>))
            | _ \<Rightarrow> s)
      else s)"
| "speechify_step p s (LoadEnd i has_result) = onloadend i has_result s"
| "speechify_step p s (HealthSettled i out) = s"
| "speechify_step p s (ProbeSettled out) = s"

definition speechify_run ::
  "UseSpeechifyTTSConfig \<Rightarrow> event list \<Rightarrow> speechify_hook \<Rightarrow> speechify_hook" where
  "speechify_run p es s = foldl (speechify_step p) s es"

section \<open>useHiggsAudio\<close>

text \<open>
  The props \<^verbatim>\<open>refAudio\<close>, \<^verbatim>\<open>temperature\<close>, \<^verbatim>\<open>topP\<close>, \<^verbatim>\<open>topK\<close> and \<^verbatim>\<open>maxNewTokens\<close> are kept
  together, as the hook hands them to \<^verbatim>\<open>textToSpeech\<close>.
\<close>

record UseHiggsAudioConfig = UseTTSConfig +
  options :: HiggsOptions

text \<open>\<open>probes\<close> counts the \<^verbatim>\<open>checkHealth\<close> calls of the mount effect that have not settled.\<close>

record higgs_hook = hook +
  isServerAvailable :: bool
  higgsServiceRef :: "HiggsAudioService option"
  probes :: nat

definition higgs_initial :: higgs_hook where
  "higgs_initial =
     \<lparr>narrationAudioPath = None, isGenerating = False, speechDuration = 0, error = None,
      audioContextRef = None, tasks = [], readers = [], requests = [],
      isServerAvailable = False, higgsServiceRef = None, probes = 0\<rparr>"

text \<open>
  The first effect, with the five values it reads from \<^verbatim>\<open>HIGGS_CONFIG\<close> as its argument
  (each key is written in the literal, so each is present, \<^verbatim>\<open>undefined\<close> or not). It ends
  with a \<^verbatim>\<open>checkHealth\<close> call whose answer goes to \<^verbatim>\<open>setIsServerAvailable\<close>.
\<close>

record HIGGS_CONFIG =
  cfg_baseUrl :: json
  cfg_temperature :: json
  cfg_topP :: json
  cfg_topK :: json
  cfg_maxNewTokens :: json

definition higgs_mount :: "HIGGS_CONFIG \<Rightarrow> higgs_hook \<Rightarrow> higgs_hook" where
  "higgs_mount c s =
     (let svc = new_HiggsAudioService
                  [(''baseUrl'', cfg_baseUrl c), (''temperature'', cfg_temperature c),
                   (''topP'', cfg_topP c), (''topK'', cfg_topK c),
                   (''maxNewTokens'', cfg_maxNewTokens c)]
      in s\<lparr>higgsServiceRef := Some svc, audioContextRef := Some AudioContext,
            requests := requests s @ [health_request svc], probes := Suc (probes s)\<rparr>)"

definition higgs_generateSpeech ::
  "UseHiggsAudioConfig \<Rightarrow> bool \<Rightarrow> higgs_hook \<Rightarrow> higgs_hook" where
  "higgs_generateSpeech p seen s =
     (case higgsServiceRef s of
        None \<Rightarrow> s
      | Some svc \<Rightarrow>
          if seen \<or> textProp p = [] then s
          else s\<lparr>isGenerating := True, error := None,
                 requests := requests s @ [health_request svc],
                 tasks := tasks s @ [AwaitHealth]\<rparr>)"

definition higgs_catch :: "nat \<Rightarrow> js_exn \<Rightarrow> higgs_hook \<Rightarrow> higgs_hook" where
  "higgs_catch i e s =
     finally_block i (s\<lparr>error := Some (errorMessage e), isServerAvailable := False\<rparr>)"

definition not_available :: string where
  "not_available =
     ''Higgs Audio server is not available. Please ensure the local server is running.''"

text \<open>
  The \<^verbatim>\<open>TypeError\<close> of \<^verbatim>\<open>higgsServiceRef.current.textToSpeech\<close> on a ref that is \<^verbatim>\<open>null\<close>. The
  ref is set on mount and never cleared, so a suspended call does not meet it.
\<close>

definition null_service :: string where
  "null_service =
     ''Cannot read properties of null (reading '' @ [CHR 0x27] @ ''textToSpeech'' @
     [CHR 0x27] @ '')''"

fun higgs_step :: "UseHiggsAudioConfig \<Rightarrow> higgs_hook \<Rightarrow> event \<Rightarrow> higgs_hook" where
  "higgs_step p s Trigger = higgs_generateSpeech p (isGenerating s) s"
| "higgs_step p s StaleTrigger = higgs_generateSpeech p False s"
| "higgs_step p s AutoGenerate =
     (if param_default (autoGenerate p) True \<and> higgsServiceRef s \<noteq> None \<and> textProp p \<noteq> [] \<and>
         no_path (narrationAudioPath s) \<and> \<not> isGenerating s \<and> isServerAvailable s
      then higgs_generateSpeech p (isGenerating s) s else s)"
| "higgs_step p s (HealthSettled i out) =
     (if i < length (tasks s) \<and> tasks s ! i = AwaitHealth
      then (if \<not> health_settle out then higgs_catch i (JsError not_available) s
            else (case higgsServiceRef s of
                    None \<Rightarrow> higgs_catch i (JsError null_service) s
                  | Some svc \<Rightarrow>
                      s\<lparr>isServerAvailable := True,
                        requests := requests s @ [higgs_request svc (textProp p) (options p)],
                        tasks := (tasks s)[i := AwaitSynth]\<rparr>))
      else s)"
| "higgs_step p s (SynthSettled i out) =
     (if i < length (tasks s) \<and> tasks s ! i = AwaitSynth
      then (case higgs_settle out of
              Inl e \<Rightarrow> higgs_catch i e s
            | Inr b \<Rightarrow> decode i b s)
      else s)"
| "higgs_step p s (Decoded i res) =
     (if i < length (tasks s)
      then (case tasks s ! i of
              AwaitDecode b \<Rightarrow>
                (case res of
                   Inl e \<Rightarrow> higgs_catch i e s
                 | Inr d \<Rightarrow> convert i b (s\<lparr>speechDuration := d\<rparr>))
            | _ \<Rightarrow> s)
      else s)"
| "higgs_step p s (LoadEnd i has_result) = onloadend i has_result s"
| "higgs_step p s (ProbeSettled out) =
     (if 0 < probes s
      then s\<lparr>isServerAvailable := health_settle out, probes := probes s - 1\<rparr>
      else s)"

definition higgs_run :: "UseHiggsAudioConfig \<Rightarrow> event list \<Rightarrow> higgs_hook \<Rightarrow> higgs_hook" where
  "higgs_run p es s = foldl (higgs_step p) s es"

section \<open>Vocabulary of the properties\<close>

text \<open>The guard of \<^verbatim>\<open>generateSpeech\<close> lets the call through.\<close>

definition speechify_admits :: "UseSpeechifyTTSConfig \<Rightarrow> speechify_hook \<Rightarrow> bool" where
  "speechify_admits p s =
     (speechifyServiceRef s \<noteq> None \<and> \<not> isGenerating s \<and> textProp p \<noteq> [])"

definition higgs_admits :: "UseHiggsAudioConfig \<Rightarrow> higgs_hook \<Rightarrow> bool" where
  "higgs_admits p s = (higgsServiceRef s \<noteq> None \<and> \<not> isGenerating s \<and> textProp p \<noteq> [])"

text \<open>The request \<^verbatim>\<open>useSpeechifyTTS\<close> sends for its props.\<close>

definition hook_request :: "UseSpeechifyTTSConfig \<Rightarrow> SpeechifyService \<Rightarrow> Request" where
  "hook_request p svc =
     speechify_request svc (textProp p)
       (Some (param_default (voiceId p) ''oliver''))
       (Some (param_default (language p) ''en-US''))"

text \<open>
  The synthesize calls among the requests made so far: both services synthesize with a
  \<^verbatim>\<open>POST\<close>, and the health probe is a \<^verbatim>\<open>GET\<close>.
\<close>

definition synth_calls :: "'a hook_scheme \<Rightarrow> Request list" where
  "synth_calls s = filter (\<lambda>rq. method rq = ''POST'') (requests s)"

text \<open>\<^verbatim>\<open>response.blob()\<close>\<close>

definition response_blob :: "Response \<Rightarrow> Blob" where
  "response_blob r = \<lparr>blob_type = contentType r, blob_bytes = bytes r\<rparr>"

text \<open>Inputs for the examples.\<close>

abbreviation (input) speechify_props :: UseSpeechifyTTSConfig where
  "speechify_props \<equiv>
     \<lparr>textProp = ''Hello, this is a test.'', autoGenerate = None, voiceId = None,
      language = None\<rparr>"

abbreviation (input) higgs_props :: UseHiggsAudioConfig where
  "higgs_props \<equiv>
     \<lparr>textProp = ''Hello, this is a test.'', autoGenerate = None,
      options = \<lparr>refAudio = None, temperature = None, topP = None, topK = None,
                 maxNewTokens = None\<rparr>\<rparr>"

abbreviation (input) speechify_mounted :: speechify_hook where
  "speechify_mounted \<equiv> speechify_mount ''key'' speechify_initial"

abbreviation (input) higgs_mounted :: higgs_hook where
  "higgs_mounted \<equiv>
     higgs_mount \<lparr>cfg_baseUrl = JUndefined, cfg_temperature = JUndefined,
                  cfg_topP = JUndefined, cfg_topK = JUndefined,
                  cfg_maxNewTokens = JUndefined\<rparr> higgs_initial"

abbreviation (input) audio_response :: Response where
  "audio_response \<equiv>
     \<lparr>status = 200, statusText = ''OK'', contentType = ''audio/mpeg'', bytes = ''ID3''\<rparr>"

abbreviation (input) health_response :: Response where
  "health_response \<equiv>
     \<lparr>status = 200, statusText = ''OK'', contentType = ''application/json'', bytes = ''{}''\<rparr>"

abbreviation (input) overloaded_response :: Response where
  "overloaded_response \<equiv>
     \<lparr>status = 500, statusText = ''Internal Server Error'', contentType = ''text/plain'',
      bytes = ''model overloaded''\<rparr>"

text \<open>Events that start a generation, as opposed to those that settle one.\<close>

definition is_trigger :: "event \<Rightarrow> bool" where
  "is_trigger e =
     (case e of Trigger \<Rightarrow> True | StaleTrigger \<Rightarrow> True | AutoGenerate \<Rightarrow> True | _ \<Rightarrow> False)"



text \<open>The duration a successful decode reports, if the event is one.\<close>

definition decoded_duration :: "event \<Rightarrow> real option" where
  "decoded_duration e =
     (case e of Decoded i res \<Rightarrow> (case res of Inl x \<Rightarrow> None | Inr d \<Rightarrow> Some d) | _ \<Rightarrow> None)"

definition positive_decode :: "event \<Rightarrow> bool" where
  "positive_decode e = (case decoded_duration e of None \<Rightarrow> True | Some d \<Rightarrow> 0 < d)"

definition nonnegative_decode :: "event \<Rightarrow> bool" where
  "nonnegative_decode e = (case decoded_duration e of None \<Rightarrow> True | Some d \<Rightarrow> 0 \<le> d)"

text \<open>
  The audio context is there, and where a path is published or a reader is at work the
  duration has been set.
\<close>

definition path_has_duration :: "'a hook_scheme \<Rightarrow> bool" where
  "path_has_duration s =
     (audioContextRef s \<noteq> None \<and>
      (narrationAudioPath s \<noteq> None \<or> readers s \<noteq> [] \<longrightarrow> 0 < speechDuration s))"

section \<open>The base64 text can be read back\<close>

lemma index_of_nth: "distinct xs \<Longrightarrow> n < length xs \<Longrightarrow> index_of (xs ! n) xs = Some n"
proof (induction xs arbitrary: n)
  case Nil
  then show ?case by simp
next
  case (Cons y ys)
  show ?case
  proof (cases n)
    case 0
    then show ?thesis by simp
  next
    case (Suc m)
    with Cons.prems have "m < length ys" "distinct ys" "ys ! m \<noteq> y"
      by auto
    with Cons.IH[of m] Suc show ?thesis by simp
  qed
qed

lemma length_alphabet: "length alphabet = 64"
  by (simp add: alphabet_def)

lemma distinct_alphabet: "distinct alphabet"
  unfolding alphabet_def by code_simp

lemma pad_not_in_alphabet: "CHR ''='' \<notin> set alphabet"
  by (simp add: alphabet_def)

lemma char_sextet_char: "n < 64 \<Longrightarrow> char_sextet (sextet_char n) = Some n"
  unfolding char_sextet_def sextet_char_def
  by (rule index_of_nth) (simp_all add: distinct_alphabet length_alphabet)

lemma sextet_char_not_pad: "n < 64 \<Longrightarrow> sextet_char n \<noteq> CHR ''=''"
proof -
  assume "n < 64"
  then have "sextet_char n \<in> set alphabet"
    unfolding sextet_char_def by (simp add: length_alphabet)
  with pad_not_in_alphabet show ?thesis by metis
qed

lemma div_shift: "b < k \<Longrightarrow> (a * k + b) div k = (a::nat)"
  by simp

lemma mod_shift: "b < k \<Longrightarrow> (a * k + b) mod k = (b::nat)"
  by simp

lemma hi4: "y < 256 \<Longrightarrow> y div 16 < (16::nat)"
  by simp

lemma hi2: "z < 256 \<Longrightarrow> z div 64 < (4::nat)"
  by simp

lemma sextet1: "x < 256 \<Longrightarrow> x div 4 < (64::nat)"
  by simp

lemma sextet2: "y < 256 \<Longrightarrow> x mod 4 * 16 + y div 16 < (64::nat)"
proof -
  assume "y < 256"
  then have "y div 16 < 16" by simp
  moreover have "x mod 4 < 4" by simp
  ultimately show ?thesis by linarith
qed

lemma sextet3: "z < 256 \<Longrightarrow> y mod 16 * 4 + z div 64 < (64::nat)"
proof -
  assume "z < 256"
  then have "z div 64 < 4" by simp
  moreover have "y mod 16 < 16" by simp
  ultimately show ?thesis by linarith
qed

lemma byte1: "y < 256 \<Longrightarrow> x div 4 * 4 + (x mod 4 * 16 + y div 16) div 16 = (x::nat)"
  by (simp add: div_shift hi4)

lemma byte2:
  "y < 256 \<Longrightarrow> z < 256 \<Longrightarrow>
   (x mod 4 * 16 + y div 16) mod 16 * 16 + (y mod 16 * 4 + z div 64) div 4 = (y::nat)"
  by (simp add: div_shift mod_shift hi4 hi2)

lemma byte3: "z < 256 \<Longrightarrow> (y mod 16 * 4 + z div 64) mod 4 * 64 + z mod 64 = (z::nat)"
  by (simp add: mod_shift hi2)

lemma group_three:
  "unbase64_group (sextet_char (of_char a div 4))
     (sextet_char (of_char a mod 4 * 16 + of_char b div 16))
     (sextet_char (of_char b mod 16 * 4 + of_char c div 64))
     (sextet_char (of_char c mod 64)) final = Some [a, b, c]"
proof -
  have a: "(of_char a :: nat) < 256" and b: "(of_char b :: nat) < 256"
    and c: "(of_char c :: nat) < 256"
    by simp_all
  have c64: "(of_char c :: nat) mod 64 < 64" by simp
  show ?thesis
    using byte1[OF b, of "of_char a"] byte2[OF b c, of "of_char a"] byte3[OF c, of "of_char b"]
    by (simp add: unbase64_group_def char_sextet_char sextet_char_not_pad
        sextet1[OF a] sextet2[OF b] sextet3[OF c] c64)
qed

lemma group_two:
  "unbase64_group (sextet_char (of_char a div 4))
     (sextet_char (of_char a mod 4 * 16 + of_char b div 16))
     (sextet_char (of_char b mod 16 * 4)) (CHR ''='') True = Some [a, b]"
proof -
  have a: "(of_char a :: nat) < 256" and b: "(of_char b :: nat) < 256"
    by simp_all
  have z: "(0::nat) < 256" by simp
  show ?thesis
    using byte1[OF b, of "of_char a"] byte2[OF b z, of "of_char a"] sextet3[OF z, of "of_char b"]
    by (simp add: unbase64_group_def char_sextet_char sextet_char_not_pad
        sextet1[OF a] sextet2[OF b])
qed

lemma group_one:
  "unbase64_group (sextet_char (of_char a div 4)) (sextet_char (of_char a mod 4 * 16))
     (CHR ''='') (CHR ''='') True = Some [a]"
proof -
  have a: "(of_char a :: nat) < 256" by simp
  have z: "(0::nat) < 256" by simp
  show ?thesis
    using byte1[OF z, of "of_char a"] sextet2[OF z, of "of_char a"]
    by (simp add: unbase64_group_def char_sextet_char sextet1[OF a])
qed

lemma unbase64_base64: "unbase64 (base64 bs) = Some bs"
proof (induction bs rule: base64.induct)
  case (1 a b c rest)
  then show ?case by (simp add: group_three Let_def)
next
  case (2 a b)
  then show ?case by (simp add: group_two Let_def)
next
  case (3 a)
  then show ?case by (simp add: group_one Let_def)
next
  case 4
  then show ?case by simp
qed


lemma dataURL_roundtrip:
  assumes "CHR '','' \<notin> set (blob_type b)"
  shows "dataURL_bytes (readAsDataURL b) = Some (blob_bytes b)"
proof -
  let ?meta = "blob_type b @ '';base64''"
  have split: "readAsDataURL b = ''data:'' @ ?meta @ CHR '','' # base64 (blob_bytes b)"
    by (simp add: readAsDataURL_def)
  have "\<forall>c\<in>set ?meta. c \<noteq> CHR '',''"
    using assms by auto
  then have tw: "takeWhile (\<lambda>c. c \<noteq> CHR '','') (?meta @ CHR '','' # base64 (blob_bytes b)) = ?meta"
    by (simp add: takeWhile_tail)
  have suf: "suffix '';base64'' ?meta"
    by (rule suffix_appendI) simp
  show ?thesis
    unfolding dataURL_bytes_def split
    using tw suf by (simp add: Let_def unbase64_base64 del: append_assoc)
qed

section \<open>One generation attempt, step by step\<close>

lemma remove_nth_last [simp]: "remove_nth (length xs) (xs @ [x]) = xs"
  by (simp add: remove_nth_def)

lemma speechify_trigger:
  assumes "speechifyServiceRef s = Some svc" "\<not> seen" "textProp p \<noteq> []"
  shows "speechify_generateSpeech p seen s =
           s\<lparr>isGenerating := True, error := None,
             requests := requests s @ [hook_request p svc],
             tasks := tasks s @ [AwaitSynth]\<rparr>"
  using assms by (simp add: speechify_generateSpeech_def hook_request_def)

lemma speechify_success:
  assumes svc: "speechifyServiceRef s = Some svc" and idle: "\<not> isGenerating s"
    and nonempty: "textProp p \<noteq> []" and ctx: "audioContextRef s \<noteq> None" and ok: "ok r"
  shows "speechify_run p
           [Trigger, SynthSettled (length (tasks s)) (Resolved r),
            Decoded (length (tasks s)) (Inr d), LoadEnd (length (readers s)) True] s =
         s\<lparr>narrationAudioPath := Some (readAsDataURL (response_blob r)),
           isGenerating := False, speechDuration := d, error := None,
           requests := requests s @ [hook_request p svc]\<rparr>"
  using ctx ok
  by (simp add: speechify_run_def speechify_trigger[OF svc idle nonempty] speechify_settle_def
      decode_def convert_def finally_block_def onloadend_def response_blob_def)

lemma speechify_failure:
  assumes svc: "speechifyServiceRef s = Some svc" and idle: "\<not> isGenerating s"
    and nonempty: "textProp p \<noteq> []" and bad: "speechify_settle out = Inl e"
  shows "speechify_run p [Trigger, SynthSettled (length (tasks s)) out] s =
         s\<lparr>isGenerating := False, error := Some (errorMessage e),
           requests := requests s @ [hook_request p svc]\<rparr>"
  using bad
  by (simp add: speechify_run_def speechify_trigger[OF svc idle nonempty]
      speechify_catch_def finally_block_def)

lemma higgs_trigger:
  assumes "higgsServiceRef s = Some svc" "\<not> seen" "textProp p \<noteq> []"
  shows "higgs_generateSpeech p seen s =
           s\<lparr>isGenerating := True, error := None,
             requests := requests s @ [health_request svc],
             tasks := tasks s @ [AwaitHealth]\<rparr>"
  using assms by (simp add: higgs_generateSpeech_def)

lemma higgs_unavailable:
  assumes svc: "higgsServiceRef s = Some svc" and idle: "\<not> isGenerating s"
    and nonempty: "textProp p \<noteq> []" and down: "\<not> health_settle out"
  shows "higgs_run p [Trigger, HealthSettled (length (tasks s)) out] s =
         s\<lparr>isGenerating := False, error := Some not_available, isServerAvailable := False,
           requests := requests s @ [health_request svc]\<rparr>"
  using down
  by (simp add: higgs_run_def higgs_trigger[OF svc idle nonempty] higgs_catch_def
      finally_block_def errorMessage_def)

lemma higgs_probed:
  assumes svc: "higgsServiceRef s = Some svc" and idle: "\<not> isGenerating s"
    and nonempty: "textProp p \<noteq> []" and up: "health_settle hr"
  shows "higgs_run p [Trigger, HealthSettled (length (tasks s)) hr] s =
         s\<lparr>isGenerating := True, error := None, isServerAvailable := True,
           requests := requests s @ [health_request svc, higgs_request svc (textProp p) (options p)],
           tasks := tasks s @ [AwaitSynth]\<rparr>"
  using up
  by (simp add: higgs_run_def higgs_trigger[OF svc idle nonempty] svc)

lemma higgs_failure:
  assumes svc: "higgsServiceRef s = Some svc" and idle: "\<not> isGenerating s"
    and nonempty: "textProp p \<noteq> []" and up: "health_settle hr"
    and bad: "higgs_settle out = Inl e"
  shows "higgs_run p [Trigger, HealthSettled (length (tasks s)) hr,
                      SynthSettled (length (tasks s)) out] s =
         s\<lparr>isGenerating := False, error := Some (errorMessage e), isServerAvailable := False,
           requests := requests s @ [health_request svc, higgs_request svc (textProp p) (options p)]\<rparr>"
  using up bad
  by (simp add: higgs_run_def higgs_trigger[OF svc idle nonempty] svc higgs_catch_def
      finally_block_def)

lemma higgs_success:
  assumes svc: "higgsServiceRef s = Some svc" and idle: "\<not> isGenerating s"
    and nonempty: "textProp p \<noteq> []" and ctx: "audioContextRef s \<noteq> None"
    and up: "health_settle hr" and ok: "ok r"
  shows "higgs_run p
           [Trigger, HealthSettled (length (tasks s)) hr,
            SynthSettled (length (tasks s)) (Resolved r),
            Decoded (length (tasks s)) (Inr d), LoadEnd (length (readers s)) True] s =
         s\<lparr>narrationAudioPath := Some (readAsDataURL (response_blob r)),
           isGenerating := False, speechDuration := d, error := None,
           isServerAvailable := True,
           requests := requests s @ [health_request svc, higgs_request svc (textProp p) (options p)]\<rparr>"
  using ctx ok up
  by (simp add: higgs_run_def higgs_trigger[OF svc idle nonempty] svc higgs_settle_def
      decode_def convert_def finally_block_def onloadend_def response_blob_def)

text \<open>
  An attempt that nothing else interleaves with: with the effect at rest (\<^verbatim>\<open>autoGenerate\<close>
  off, or a path already published) a trigger whose synthesize call, decode and conversion
  succeed ends in \<open>Ready\<close>.
\<close>

lemma undisturbed_attempt_ends_Ready:
  assumes "speechify_admits p s" and "audioContextRef s \<noteq> None"
    and "higgs_admits q h" and "audioContextRef h \<noteq> None"
    and "ok r" and "health_settle hr" and "0 < d"
  shows "(let s' = speechify_run p
                     [Trigger, SynthSettled (length (tasks s)) (Resolved r),
                      Decoded (length (tasks s)) (Inr d), LoadEnd (length (readers s)) True] s
          in generationState s' = Ready \<and> 0 < speechDuration s' \<and> narrationAudioPath s' \<noteq> None) \<and>
         (let h' = higgs_run q
                     [Trigger, HealthSettled (length (tasks h)) hr,
                      SynthSettled (length (tasks h)) (Resolved r),
                      Decoded (length (tasks h)) (Inr d), LoadEnd (length (readers h)) True] h
          in generationState h' = Ready \<and> 0 < speechDuration h' \<and> narrationAudioPath h' \<noteq> None)"
proof -
  from assms(1) obtain svc where svc: "speechifyServiceRef s = Some svc"
    and idle: "\<not> isGenerating s" and nonempty: "textProp p \<noteq> []"
    by (auto simp: speechify_admits_def)
  from assms(3) obtain hsvc where hsvc: "higgsServiceRef h = Some hsvc"
    and hidle: "\<not> isGenerating h" and hnonempty: "textProp q \<noteq> []"
    by (auto simp: higgs_admits_def)
  have "generationState (s\<lparr>narrationAudioPath := Some u, isGenerating := False,
          speechDuration := d, error := None, requests := rs\<rparr>) = Ready" for u rs
    by (simp add: generationState_def)
  moreover have "generationState (h\<lparr>narrationAudioPath := Some u, isGenerating := False,
          speechDuration := d, error := None, isServerAvailable := True, requests := rs\<rparr>) = Ready"
    for u rs
    by (simp add: generationState_def)
  ultimately show ?thesis
    using \<open>0 < d\<close>
    by (simp add: speechify_success[OF svc idle nonempty assms(2) assms(5)]
        higgs_success[OF hsvc hidle hnonempty assms(4) assms(6) assms(5)] Let_def)
qed

section \<open>No call is suspended, so no request goes out\<close>

lemma higgs_quiet_step:
  "tasks s = [] \<Longrightarrow> \<not> is_trigger e \<Longrightarrow>
   tasks (higgs_step p s e) = [] \<and> requests (higgs_step p s e) = requests s"
  by (cases e) (simp_all add: is_trigger_def onloadend_def)

lemma higgs_quiet_run:
  "tasks s = [] \<Longrightarrow> list_all (\<lambda>e. \<not> is_trigger e) es \<Longrightarrow>
   tasks (higgs_run p es s) = [] \<and> requests (higgs_run p es s) = requests s"
proof (induction es arbitrary: s)
  case Nil
  then show ?case by (simp add: higgs_run_def)
next
  case (Cons e es)
  from Cons.prems have step: "tasks (higgs_step p s e) = []"
    "requests (higgs_step p s e) = requests s"
    using higgs_quiet_step[of s e p] by simp_all
  from Cons.prems have "list_all (\<lambda>e. \<not> is_trigger e) es"
    by simp
  from Cons.IH[OF step(1) this] step(2) show ?case
    by (simp add: higgs_run_def)
qed

section \<open>The duration and the path\<close>

lemma path_has_duration_decode:
  "path_has_duration s \<Longrightarrow> path_has_duration (decode i b s)"
  by (simp add: path_has_duration_def decode_def)

lemma path_has_duration_decoded:
  "path_has_duration s \<Longrightarrow> 0 < d \<Longrightarrow> path_has_duration (convert i b (s\<lparr>speechDuration := d\<rparr>))"
  by (simp add: path_has_duration_def convert_def finally_block_def)

lemma path_has_duration_onloadend:
  "path_has_duration s \<Longrightarrow> path_has_duration (onloadend i r s)"
  by (auto simp: path_has_duration_def onloadend_def split: if_splits)

lemma path_has_duration_speechify_step:
  assumes "path_has_duration s" and "positive_decode e"
  shows "path_has_duration (speechify_step p s e)"
proof (cases e)
  case Trigger
  with assms(1) show ?thesis
    by (auto simp: speechify_generateSpeech_def path_has_duration_def split: option.splits)
next
  case StaleTrigger
  with assms(1) show ?thesis
    by (auto simp: speechify_generateSpeech_def path_has_duration_def split: option.splits)
next
  case AutoGenerate
  with assms(1) show ?thesis
    by (auto simp: speechify_generateSpeech_def path_has_duration_def split: option.splits)
next
  case (SynthSettled i out)
  have "path_has_duration (speechify_catch i x s)" for x
    using assms(1) by (simp add: speechify_catch_def path_has_duration_def finally_block_def)
  with SynthSettled assms(1) show ?thesis
    by (simp add: path_has_duration_decode split: sum.splits)
next
  case (Decoded i res)
  have caught: "path_has_duration (speechify_catch i x s)" for x
    using assms(1) by (simp add: speechify_catch_def path_has_duration_def finally_block_def)
  have "path_has_duration (convert i b (s\<lparr>speechDuration := d\<rparr>))" if "res = Inr d" for b d
    using assms that Decoded
    by (intro path_has_duration_decoded) (simp_all add: positive_decode_def decoded_duration_def)
  with Decoded assms(1) caught show ?thesis
    by (simp split: sum.splits task.splits)
next
  case (LoadEnd i r)
  with assms(1) show ?thesis
    by (simp add: path_has_duration_onloadend)
qed (use assms(1) in simp_all)

lemma path_has_duration_speechify_run:
  "path_has_duration s \<Longrightarrow> list_all positive_decode es \<Longrightarrow>
   path_has_duration (speechify_run p es s)"
  unfolding speechify_run_def
  by (induction es arbitrary: s) (simp_all add: path_has_duration_speechify_step)

lemma path_has_duration_higgs_step:
  assumes "path_has_duration s" and "positive_decode e"
  shows "path_has_duration (higgs_step p s e)"
proof (cases e)
  case Trigger
  with assms(1) show ?thesis
    by (auto simp: higgs_generateSpeech_def path_has_duration_def split: option.splits)
next
  case StaleTrigger
  with assms(1) show ?thesis
    by (auto simp: higgs_generateSpeech_def path_has_duration_def split: option.splits)
next
  case AutoGenerate
  with assms(1) show ?thesis
    by (auto simp: higgs_generateSpeech_def path_has_duration_def split: option.splits)
next
  case (HealthSettled i out)
  have "path_has_duration (higgs_catch i x s)" for x
    using assms(1) by (simp add: higgs_catch_def path_has_duration_def finally_block_def)
  with HealthSettled assms(1) show ?thesis
    by (auto simp: path_has_duration_def split: option.splits)
next
  case (SynthSettled i out)
  have "path_has_duration (higgs_catch i x s)" for x
    using assms(1) by (simp add: higgs_catch_def path_has_duration_def finally_block_def)
  with SynthSettled assms(1) show ?thesis
    by (simp add: path_has_duration_decode split: sum.splits)
next
  case (Decoded i res)
  have caught: "path_has_duration (higgs_catch i x s)" for x
    using assms(1) by (simp add: higgs_catch_def path_has_duration_def finally_block_def)
  have "path_has_duration (convert i b (s\<lparr>speechDuration := d\<rparr>))" if "res = Inr d" for b d
    using assms that Decoded
    by (intro path_has_duration_decoded) (simp_all add: positive_decode_def decoded_duration_def)
  with Decoded assms(1) caught show ?thesis
    by (simp split: sum.splits task.splits)
next
  case (LoadEnd i r)
  with assms(1) show ?thesis
    by (simp add: path_has_duration_onloadend)
next
  case (ProbeSettled out)
  with assms(1) show ?thesis
    by (simp add: path_has_duration_def)
qed

lemma path_has_duration_higgs_run:
  "path_has_duration s \<Longrightarrow> list_all positive_decode es \<Longrightarrow>
   path_has_duration (higgs_run p es s)"
  unfolding higgs_run_def
  by (induction es arbitrary: s) (simp_all add: path_has_duration_higgs_step)

lemma path_has_duration_mount:
  "path_has_duration (speechify_mount key speechify_initial)"
  "path_has_duration (higgs_mount c higgs_initial)"
  by (simp_all add: path_has_duration_def speechify_mount_def speechify_initial_def
      higgs_mount_def higgs_initial_def Let_def)

section \<open>Only a successful decode sets the duration\<close>

lemma duration_finally [simp]: "speechDuration (finally_block i s) = speechDuration s"
  by (simp add: finally_block_def)

lemma duration_decode [simp]: "speechDuration (decode i b s) = speechDuration s"
  by (simp add: decode_def convert_def)

lemma duration_onloadend [simp]: "speechDuration (onloadend i r s) = speechDuration s"
  by (simp add: onloadend_def)

lemma duration_speechify_step:
  "speechDuration (speechify_step p s e) = speechDuration s \<or>
   decoded_duration e = Some (speechDuration (speechify_step p s e))"
proof (cases e)
  case Trigger
  then show ?thesis
    by (simp add: speechify_generateSpeech_def split: option.splits)
next
  case StaleTrigger
  then show ?thesis
    by (simp add: speechify_generateSpeech_def split: option.splits)
next
  case AutoGenerate
  then show ?thesis
    by (simp add: speechify_generateSpeech_def split: option.splits)
next
  case (SynthSettled i out)
  then show ?thesis
    by (simp add: speechify_catch_def split: sum.splits)
next
  case (Decoded i res)
  then show ?thesis
    by (simp add: speechify_catch_def convert_def decoded_duration_def
        split: sum.splits task.splits)
qed simp_all

lemma duration_higgs_step:
  "speechDuration (higgs_step p s e) = speechDuration s \<or>
   decoded_duration e = Some (speechDuration (higgs_step p s e))"
proof (cases e)
  case Trigger
  then show ?thesis
    by (simp add: higgs_generateSpeech_def split: option.splits)
next
  case StaleTrigger
  then show ?thesis
    by (simp add: higgs_generateSpeech_def split: option.splits)
next
  case AutoGenerate
  then show ?thesis
    by (simp add: higgs_generateSpeech_def split: option.splits)
next
  case (HealthSettled i out)
  then show ?thesis
    by (simp add: higgs_catch_def split: option.splits)
next
  case (SynthSettled i out)
  then show ?thesis
    by (simp add: higgs_catch_def split: sum.splits)
next
  case (Decoded i res)
  then show ?thesis
    by (simp add: higgs_catch_def convert_def decoded_duration_def
        split: sum.splits task.splits)
qed simp_all

lemma duration_speechify_run:
  "(list_all nonnegative_decode es \<longrightarrow> 0 \<le> speechDuration s \<longrightarrow>
      0 \<le> speechDuration (speechify_run p es s)) \<and>
   (list_all (\<lambda>e. decoded_duration e = None) es \<longrightarrow>
      speechDuration (speechify_run p es s) = speechDuration s)"
proof (induction es arbitrary: s)
  case Nil
  show ?case by (simp add: speechify_run_def)
next
  case (Cons e es)
  have run: "speechify_run p (e # es) s = speechify_run p es (speechify_step p s e)"
    by (simp add: speechify_run_def)
  from duration_speechify_step[of p s e]
  have "nonnegative_decode e \<Longrightarrow> 0 \<le> speechDuration s \<Longrightarrow>
        0 \<le> speechDuration (speechify_step p s e)"
    and "decoded_duration e = None \<Longrightarrow> speechDuration (speechify_step p s e) = speechDuration s"
    by (auto simp: nonnegative_decode_def)
  with Cons.IH[of "speechify_step p s e"] show ?case
    unfolding run by simp
qed

lemma duration_higgs_run:
  "(list_all nonnegative_decode es \<longrightarrow> 0 \<le> speechDuration s \<longrightarrow>
      0 \<le> speechDuration (higgs_run p es s)) \<and>
   (list_all (\<lambda>e. decoded_duration e = None) es \<longrightarrow>
      speechDuration (higgs_run p es s) = speechDuration s)"
proof (induction es arbitrary: s)
  case Nil
  show ?case by (simp add: higgs_run_def)
next
  case (Cons e es)
  have run: "higgs_run p (e # es) s = higgs_run p es (higgs_step p s e)"
    by (simp add: higgs_run_def)
  from duration_higgs_step[of p s e]
  have "nonnegative_decode e \<Longrightarrow> 0 \<le> speechDuration s \<Longrightarrow>
        0 \<le> speechDuration (higgs_step p s e)"
    and "decoded_duration e = None \<Longrightarrow> speechDuration (higgs_step p s e) = speechDuration s"
    by (auto simp: nonnegative_decode_def)
  with Cons.IH[of "higgs_step p s e"] show ?case
    unfolding run by simp
qed

lemma duration_mount:
  "speechDuration (speechify_mount key speechify_initial) = 0"
  "speechDuration (higgs_mount c higgs_initial) = 0"
  by (simp_all add: speechify_mount_def speechify_initial_def higgs_mount_def higgs_initial_def
      Let_def)

section \<open>The claims\<close>


text \<open>
  C2. The claim has the path and the duration published together or not at all. The code
  calls \<^verbatim>\<open>setSpeechDuration\<close> when the decode has finished and \<^verbatim>\<open>setNarrationAudioPath\<close>
  later, in the \<^verbatim>\<open>onloadend\<close> callback of the reader, which fires after \<^verbatim>\<open>generateSpeech\<close>
  has returned: in between the duration is set and the path is not, and it stays so when
  the reader has no result.
\<close>

theorem duration_published_before_path:
  "speechDuration (speechify_run speechify_props
      [Trigger, SynthSettled 0 (Resolved audio_response), Decoded 0 (Inr 2)] speechify_mounted) = 2 \<and>
   narrationAudioPath (speechify_run speechify_props
      [Trigger, SynthSettled 0 (Resolved audio_response), Decoded 0 (Inr 2)] speechify_mounted) = None \<and>
   isGenerating (speechify_run speechify_props
      [Trigger, SynthSettled 0 (Resolved audio_response), Decoded 0 (Inr 2)] speechify_mounted) = False \<and>
   speechDuration (speechify_run speechify_props
      [Trigger, SynthSettled 0 (Resolved audio_response), Decoded 0 (Inr 2), LoadEnd 0 False]
      speechify_mounted) = 2 \<and>
   narrationAudioPath (speechify_run speechify_props
      [Trigger, SynthSettled 0 (Resolved audio_response), Decoded 0 (Inr 2), LoadEnd 0 False]
      speechify_mounted) = None"
  by (simp add: speechify_run_def speechify_mount_def speechify_initial_def
      speechify_generateSpeech_def speechify_settle_def ok_def decode_def convert_def
      finally_block_def onloadend_def remove_nth_def)

text \<open>
  C2, amended. In every state reached from the mount, in both hooks, a published path
  comes with a published duration: when \<^verbatim>\<open>narrationAudioPath\<close> is not null,
  \<^verbatim>\<open>speechDuration\<close> is positive (the decoder reporting positive durations). The converse
  does not hold: the duration is published first.
\<close>

theorem path_implies_duration:
  assumes "list_all positive_decode es"
  shows "(let s = speechify_run p es (speechify_mount key speechify_initial)
          in narrationAudioPath s \<noteq> None \<longrightarrow> 0 < speechDuration s) \<and>
         (let h = higgs_run q es (higgs_mount c higgs_initial)
          in narrationAudioPath h \<noteq> None \<longrightarrow> 0 < speechDuration h)"
proof -
  have "path_has_duration (speechify_run p es (speechify_mount key speechify_initial))"
    using path_has_duration_mount(1) assms by (rule path_has_duration_speechify_run)
  moreover have "path_has_duration (higgs_run q es (higgs_mount c higgs_initial))"
    using path_has_duration_mount(2) assms by (rule path_has_duration_higgs_run)
  ultimately show ?thesis
    by (simp add: path_has_duration_def Let_def)
qed

theorem path_implies_duration_witness:
  "narrationAudioPath (speechify_run speechify_props
      [Trigger, SynthSettled 0 (Resolved audio_response), Decoded 0 (Inr 2), LoadEnd 0 True]
      speechify_mounted) \<noteq> None \<and>
   0 < speechDuration (speechify_run speechify_props
      [Trigger, SynthSettled 0 (Resolved audio_response), Decoded 0 (Inr 2), LoadEnd 0 True]
      speechify_mounted) \<and>
   narrationAudioPath (higgs_run higgs_props
      [Trigger, HealthSettled 0 (Resolved health_response),
       SynthSettled 0 (Resolved audio_response), Decoded 0 (Inr 2), LoadEnd 0 True]
      higgs_mounted) \<noteq> None \<and>
   0 < speechDuration (higgs_run higgs_props
      [Trigger, HealthSettled 0 (Resolved health_response),
       SynthSettled 0 (Resolved audio_response), Decoded 0 (Inr 2), LoadEnd 0 True]
      higgs_mounted)"
proof -
  have 1: "list_all positive_decode
             [Trigger, SynthSettled 0 (Resolved audio_response), Decoded 0 (Inr 2), LoadEnd 0 True]"
    and 2: "list_all positive_decode
             [Trigger, HealthSettled 0 (Resolved health_response),
              SynthSettled 0 (Resolved audio_response), Decoded 0 (Inr 2), LoadEnd 0 True]"
    by (simp_all add: positive_decode_def decoded_duration_def)
  have s: "narrationAudioPath (speechify_run speechify_props
      [Trigger, SynthSettled 0 (Resolved audio_response), Decoded 0 (Inr 2), LoadEnd 0 True]
      speechify_mounted) \<noteq> None"
    by (simp add: speechify_run_def speechify_mount_def speechify_initial_def
        speechify_generateSpeech_def speechify_settle_def ok_def decode_def convert_def
        finally_block_def onloadend_def remove_nth_def)
  have h: "narrationAudioPath (higgs_run higgs_props
      [Trigger, HealthSettled 0 (Resolved health_response),
       SynthSettled 0 (Resolved audio_response), Decoded 0 (Inr 2), LoadEnd 0 True]
      higgs_mounted) \<noteq> None"
    by (simp add: higgs_run_def higgs_mount_def higgs_initial_def higgs_generateSpeech_def
        higgs_settle_def health_settle_def ok_def decode_def convert_def finally_block_def
        onloadend_def remove_nth_def Let_def)
  from path_implies_duration[OF 1, of speechify_props "''key''"] s
  have "0 < speechDuration (speechify_run speechify_props
      [Trigger, SynthSettled 0 (Resolved audio_response), Decoded 0 (Inr 2), LoadEnd 0 True]
      speechify_mounted)"
    by (simp add: Let_def)
  moreover from path_implies_duration[OF 2, of _ _ higgs_props
      "\<lparr>cfg_baseUrl = JUndefined, cfg_temperature = JUndefined, cfg_topP = JUndefined,
        cfg_topK = JUndefined, cfg_maxNewTokens = JUndefined\<rparr>"] h
  have "0 < speechDuration (higgs_run higgs_props
      [Trigger, HealthSettled 0 (Resolved health_response),
       SynthSettled 0 (Resolved audio_response), Decoded 0 (Inr 2), LoadEnd 0 True]
      higgs_mounted)"
    by (simp add: Let_def)
  ultimately show ?thesis
    using s h by simp
qed

text \<open>
  C3. A response with a status of 400 or more makes the synthesize call of either service
  fail with an error whose message holds the status code and the text of the body, and an
  attempt that gets such a response ends in \<open>Failed\<close> with that message, which contains
  the decimal status code, as the error of the hook.
\<close>

theorem backend_status_error:
  assumes "400 \<le> status r"
    and "speechify_admits p s" and "higgs_admits q h" and "health_settle hr"
  shows "(\<exists>m. speechify_settle (Resolved r) = Inl (JsError m) \<and>
              sublist (decimal (status r)) m \<and> sublist (bytes r) m \<and>
              (let s' = speechify_run p [Trigger, SynthSettled (length (tasks s)) (Resolved r)] s
               in generationState s' = Failed \<and> error s' = Some m)) \<and>
         (\<exists>m. higgs_settle (Resolved r) = Inl (JsError m) \<and>
              sublist (decimal (status r)) m \<and> sublist (bytes r) m \<and>
              (let h' = higgs_run q [Trigger, HealthSettled (length (tasks h)) hr,
                                     SynthSettled (length (tasks h)) (Resolved r)] h
               in generationState h' = Failed \<and> error h' = Some m))"
proof -
  from assms(2) obtain svc where svc: "speechifyServiceRef s = Some svc"
    and idle: "\<not> isGenerating s" and nonempty: "textProp p \<noteq> []"
    by (auto simp: speechify_admits_def)
  from assms(3) obtain hsvc where hsvc: "higgsServiceRef h = Some hsvc"
    and hidle: "\<not> isGenerating h" and hnonempty: "textProp q \<noteq> []"
    by (auto simp: higgs_admits_def)
  let ?tail = "decimal (status r) @ '' '' @ statusText r @ '' - '' @ bytes r"
  let ?m = "''Speechify API error: '' @ ?tail"
  let ?n = "''Higgs Audio API error: '' @ ?tail"
  from assms(1) have bad: "\<not> ok r"
    by (simp add: ok_def)
  then have settle: "speechify_settle (Resolved r) = Inl (JsError ?m)"
    and hsettle: "higgs_settle (Resolved r) = Inl (JsError ?n)"
    by (simp_all add: speechify_settle_def higgs_settle_def)
  have code: "sublist (decimal (status r)) (pre @ ?tail)" for pre
    using sublist_appendI[of "decimal (status r)" pre "'' '' @ statusText r @ '' - '' @ bytes r"]
    by simp
  have body_text: "sublist (bytes r) (pre @ ?tail)" for pre
    using sublist_appendI[of "bytes r" "pre @ decimal (status r) @ '' '' @ statusText r @ '' - ''" "[]"]
    by simp
  have "generationState (speechify_run p [Trigger, SynthSettled (length (tasks s)) (Resolved r)] s)
          = Failed \<and>
        error (speechify_run p [Trigger, SynthSettled (length (tasks s)) (Resolved r)] s) = Some ?m"
    by (simp add: speechify_failure[OF svc idle nonempty settle] generationState_def
        errorMessage_def)
  moreover have
    "generationState (higgs_run q [Trigger, HealthSettled (length (tasks h)) hr,
                                   SynthSettled (length (tasks h)) (Resolved r)] h) = Failed \<and>
     error (higgs_run q [Trigger, HealthSettled (length (tasks h)) hr,
                         SynthSettled (length (tasks h)) (Resolved r)] h) = Some ?n"
    by (simp add: higgs_failure[OF hsvc hidle hnonempty assms(4) hsettle] generationState_def
        errorMessage_def)
  ultimately show ?thesis
    using settle hsettle code[of "''Speechify API error: ''"] code[of "''Higgs Audio API error: ''"]
      body_text[of "''Speechify API error: ''"] body_text[of "''Higgs Audio API error: ''"]
    by (simp add: Let_def)
qed

theorem backend_status_error_witness:
  "decimal 500 = ''500'' \<and>
   speechify_settle (Resolved overloaded_response) =
     Inl (JsError ''Speechify API error: 500 Internal Server Error - model overloaded'') \<and>
   higgs_settle (Resolved overloaded_response) =
     Inl (JsError ''Higgs Audio API error: 500 Internal Server Error - model overloaded'') \<and>
   (\<exists>m. sublist ''500'' m \<and> sublist ''model overloaded'' m \<and>
        generationState (speechify_run speechify_props
           [Trigger, SynthSettled 0 (Resolved overloaded_response)] speechify_mounted) = Failed \<and>
        error (speechify_run speechify_props
           [Trigger, SynthSettled 0 (Resolved overloaded_response)] speechify_mounted) = Some m) \<and>
   (\<exists>m. sublist ''500'' m \<and> sublist ''model overloaded'' m \<and>
        generationState (higgs_run higgs_props
           [Trigger, HealthSettled 0 (Resolved health_response),
            SynthSettled 0 (Resolved overloaded_response)] higgs_mounted) = Failed \<and>
        error (higgs_run higgs_props
           [Trigger, HealthSettled 0 (Resolved health_response),
            SynthSettled 0 (Resolved overloaded_response)] higgs_mounted) = Some m)"
proof -
  have dec: "decimal 500 = ''500''"
    by (simp add: decimal.simps digit_def)
  have 1: "400 \<le> status overloaded_response"
    by simp
  have 2: "speechify_admits speechify_props speechify_mounted"
    by (simp add: speechify_admits_def speechify_mount_def speechify_initial_def)
  have 3: "higgs_admits higgs_props higgs_mounted"
    by (simp add: higgs_admits_def higgs_mount_def higgs_initial_def Let_def)
  have 4: "health_settle (Resolved health_response)"
    by (simp add: health_settle_def ok_def)
  have t: "tasks speechify_mounted = []" "tasks higgs_mounted = []"
    by (simp_all add: speechify_mount_def speechify_initial_def higgs_mount_def
        higgs_initial_def Let_def)
  have settles:
    "speechify_settle (Resolved overloaded_response) =
       Inl (JsError ''Speechify API error: 500 Internal Server Error - model overloaded'')"
    "higgs_settle (Resolved overloaded_response) =
       Inl (JsError ''Higgs Audio API error: 500 Internal Server Error - model overloaded'')"
    by (simp_all add: speechify_settle_def higgs_settle_def ok_def dec)
  show ?thesis
    using backend_status_error[OF 1 2 3 4] dec settles unfolding t
    by (simp add: Let_def)
qed

text \<open>
  C4. The claim has a second call of \<^verbatim>\<open>generateSpeech\<close> during a generation return
  without effect, so that two rapid calls send one synthesize request. The guard is there
  for that, but the \<^verbatim>\<open>isGenerating\<close> it reads is the one the callback closed over in its
  render. Two calls in a row, the second before the next render, both find it \<^verbatim>\<open>false\<close>:
  both pass the guard, two calls are suspended at once and two synthesize requests go out.
\<close>

theorem same_callback_sends_twice:
  "length (synth_calls (speechify_run speechify_props [Trigger, StaleTrigger]
                          speechify_mounted)) = 2 \<and>
   tasks (speechify_run speechify_props [Trigger, StaleTrigger] speechify_mounted) =
     [AwaitSynth, AwaitSynth] \<and>
   length (synth_calls (higgs_run higgs_props
                          [Trigger, StaleTrigger, HealthSettled 0 (Resolved health_response),
                           HealthSettled 1 (Resolved health_response)] higgs_mounted)) = 2 \<and>
   tasks (higgs_run higgs_props
            [Trigger, StaleTrigger, HealthSettled 0 (Resolved health_response),
             HealthSettled 1 (Resolved health_response)] higgs_mounted) =
     [AwaitSynth, AwaitSynth]"
  by (simp add: speechify_run_def speechify_mount_def speechify_initial_def
      speechify_generateSpeech_def higgs_run_def higgs_mount_def higgs_initial_def
      higgs_generateSpeech_def health_settle_def ok_def synth_calls_def speechify_request_def
      higgs_request_def health_request_def Let_def)

text \<open>
  C5. In the local hook, when \<^verbatim>\<open>checkHealth\<close> answers \<^verbatim>\<open>false\<close> (a response that is not
  \<^verbatim>\<open>ok\<close>, or no response at all), the attempt makes no synthesize call and ends in
  \<open>Failed\<close> with the message of the \<open>ServerUnavailable\<close> error, which contains
  \<^verbatim>\<open>not available\<close>. The attempt is over at that point: whatever settles afterwards, no
  request is made until a new trigger.
\<close>

theorem unhealthy_server_no_synthesize:
  assumes "higgs_admits p s" and "\<not> health_settle out"
    and "tasks s = []" and "list_all (\<lambda>e. \<not> is_trigger e) es"
  shows "(let s' = higgs_run p [Trigger, HealthSettled 0 out] s
          in generationState s' = Failed \<and> error s' = Some not_available \<and>
             sublist ''not available'' not_available \<and>
             synth_calls s' = synth_calls s \<and>
             synth_calls (higgs_run p es s') = synth_calls s)"
proof -
  from assms(1) obtain svc where svc: "higgsServiceRef s = Some svc"
    and idle: "\<not> isGenerating s" and nonempty: "textProp p \<noteq> []"
    by (auto simp: higgs_admits_def)
  let ?s' = "higgs_run p [Trigger, HealthSettled 0 out] s"
  have run: "?s' = s\<lparr>isGenerating := False, error := Some not_available,
                      isServerAvailable := False,
                      requests := requests s @ [health_request svc]\<rparr>"
    using higgs_unavailable[OF svc idle nonempty assms(2)] assms(3) by simp
  have "not_available = ''Higgs Audio server is '' @ ''not available'' @
                         ''. Please ensure the local server is running.''"
    by (simp add: not_available_def)
  then have mentions: "sublist ''not available'' not_available"
    using sublist_appendI by metis
  have calls: "synth_calls ?s' = synth_calls s"
    by (simp add: run synth_calls_def health_request_def)
  have "tasks ?s' = []"
    by (simp add: run assms(3))
  from higgs_quiet_run[OF this assms(4)] have "requests (higgs_run p es ?s') = requests ?s'"
    by simp
  then have later: "synth_calls (higgs_run p es ?s') = synth_calls s"
    using calls by (simp add: synth_calls_def)
  show ?thesis
    using mentions calls later by (simp add: Let_def run generationState_def)
qed

theorem unhealthy_server_no_synthesize_witness:
  "generationState (higgs_run higgs_props [Trigger, HealthSettled 0 (Rejected NonError)]
                      higgs_mounted) = Failed \<and>
   error (higgs_run higgs_props [Trigger, HealthSettled 0 (Rejected NonError)] higgs_mounted) =
     Some ''Higgs Audio server is not available. Please ensure the local server is running.'' \<and>
   synth_calls (higgs_run higgs_props [Trigger, HealthSettled 0 (Rejected NonError)]
                  higgs_mounted) = [] \<and>
   synth_calls (higgs_run higgs_props
                  [Trigger, HealthSettled 0 (Rejected NonError),
                   SynthSettled 0 (Resolved audio_response), Decoded 0 (Inr 2), LoadEnd 0 True,
                   ProbeSettled (Resolved overloaded_response)]
                  higgs_mounted) = []"
proof -
  have 1: "higgs_admits higgs_props higgs_mounted"
    by (simp add: higgs_admits_def higgs_mount_def higgs_initial_def Let_def)
  have 2: "\<not> health_settle (Rejected NonError)"
    by (simp add: health_settle_def)
  have 3: "tasks higgs_mounted = []"
    by (simp add: higgs_mount_def higgs_initial_def Let_def)
  have 4: "list_all (\<lambda>e. \<not> is_trigger e)
             [SynthSettled 0 (Resolved audio_response), Decoded 0 (Inr 2), LoadEnd 0 True,
              ProbeSettled (Resolved overloaded_response)]"
    by (simp add: is_trigger_def)
  have none: "synth_calls higgs_mounted = []"
    by (simp add: synth_calls_def higgs_mount_def higgs_initial_def Let_def health_request_def)
  have split: "higgs_run higgs_props
                 [Trigger, HealthSettled 0 (Rejected NonError),
                  SynthSettled 0 (Resolved audio_response), Decoded 0 (Inr 2), LoadEnd 0 True,
                  ProbeSettled (Resolved overloaded_response)] higgs_mounted =
               higgs_run higgs_props
                 [SynthSettled 0 (Resolved audio_response), Decoded 0 (Inr 2), LoadEnd 0 True,
                  ProbeSettled (Resolved overloaded_response)]
                 (higgs_run higgs_props [Trigger, HealthSettled 0 (Rejected NonError)]
                    higgs_mounted)"
    by (simp add: higgs_run_def)
  show ?thesis
    using unhealthy_server_no_synthesize[OF 1 2 3 4] none unfolding split
    by (simp add: Let_def not_available_def)
qed

text \<open>
  C6. The claim has the entry to \<open>InFlight\<close> clear the prior path. \<^verbatim>\<open>generateSpeech\<close> calls
  \<^verbatim>\<open>setIsGenerating(true)\<close> and \<^verbatim>\<open>setError(null)\<close> and no other setter before the backend
  call: after a generation that succeeded, a new trigger is in flight with the path of the
  earlier generation still published.
\<close>

theorem retrigger_keeps_path:
  "generationState (speechify_run speechify_props
      [Trigger, SynthSettled 0 (Resolved audio_response), Decoded 0 (Inr 2), LoadEnd 0 True,
       Trigger] speechify_mounted) = InFlight \<and>
   narrationAudioPath (speechify_run speechify_props
      [Trigger, SynthSettled 0 (Resolved audio_response), Decoded 0 (Inr 2), LoadEnd 0 True,
       Trigger] speechify_mounted) = Some ''data:audio/mpeg;base64,SUQz''"
  by (simp add: speechify_run_def speechify_mount_def speechify_initial_def
      speechify_generateSpeech_def speechify_settle_def ok_def decode_def convert_def
      finally_block_def onloadend_def remove_nth_def generationState_def readAsDataURL_def
      sextet_char_def alphabet_def)

text \<open>
  C6, amended. A call of \<^verbatim>\<open>generateSpeech\<close> that passes the guard (the service is set, the
  text is not empty, the callback saw \<^verbatim>\<open>isGenerating\<close> as \<^verbatim>\<open>false\<close>) enters \<open>InFlight\<close> with
  the prior error cleared, no later than the first backend call of the attempt (the
  synthesize request in the cloud hook, the health probe in the local one), and leaves the
  prior path and the prior duration as they were.
\<close>

theorem entry_to_InFlight:
  assumes "speechifyServiceRef s \<noteq> None" and "textProp p \<noteq> []"
    and "higgsServiceRef h \<noteq> None" and "textProp q \<noteq> []"
    and "\<not> seen"
  shows "(let s' = speechify_generateSpeech p seen s
          in generationState s' = InFlight \<and> error s' = None \<and>
             length (requests s') = Suc (length (requests s)) \<and>
             narrationAudioPath s' = narrationAudioPath s \<and>
             speechDuration s' = speechDuration s) \<and>
         (let h' = higgs_generateSpeech q seen h
          in generationState h' = InFlight \<and> error h' = None \<and>
             length (requests h') = Suc (length (requests h)) \<and>
             narrationAudioPath h' = narrationAudioPath h \<and>
             speechDuration h' = speechDuration h)"
proof -
  from assms(1) obtain svc where svc: "speechifyServiceRef s = Some svc"
    by auto
  from assms(3) obtain hsvc where hsvc: "higgsServiceRef h = Some hsvc"
    by auto
  show ?thesis
    by (simp add: speechify_trigger[OF svc assms(5) assms(2)]
        higgs_trigger[OF hsvc assms(5) assms(4)] generationState_def Let_def)
qed

theorem entry_to_InFlight_witness:
  "error (speechify_run speechify_props
            [Trigger, SynthSettled 0 (Resolved overloaded_response)] speechify_mounted) \<noteq> None \<and>
   generationState (speechify_run speechify_props
            [Trigger, SynthSettled 0 (Resolved overloaded_response), Trigger]
            speechify_mounted) = InFlight \<and>
   error (speechify_run speechify_props
            [Trigger, SynthSettled 0 (Resolved overloaded_response), Trigger]
            speechify_mounted) = None \<and>
   error (higgs_run higgs_props
            [Trigger, HealthSettled 0 (Rejected NonError)] higgs_mounted) \<noteq> None \<and>
   generationState (higgs_run higgs_props
            [Trigger, HealthSettled 0 (Rejected NonError), Trigger] higgs_mounted) = InFlight \<and>
   error (higgs_run higgs_props
            [Trigger, HealthSettled 0 (Rejected NonError), Trigger] higgs_mounted) = None"
proof -
  let ?s = "speechify_run speechify_props
              [Trigger, SynthSettled 0 (Resolved overloaded_response)] speechify_mounted"
  let ?h = "higgs_run higgs_props [Trigger, HealthSettled 0 (Rejected NonError)] higgs_mounted"
  have s: "speechifyServiceRef ?s \<noteq> None" "\<not> isGenerating ?s" "error ?s \<noteq> None"
    by (simp_all add: speechify_run_def speechify_mount_def speechify_initial_def
        speechify_generateSpeech_def speechify_settle_def ok_def speechify_catch_def
        finally_block_def)
  have h: "higgsServiceRef ?h \<noteq> None" "\<not> isGenerating ?h" "error ?h \<noteq> None"
    by (simp_all add: higgs_run_def higgs_mount_def higgs_initial_def higgs_generateSpeech_def
        health_settle_def higgs_catch_def finally_block_def Let_def)
  have nonempty: "textProp speechify_props \<noteq> []" "textProp higgs_props \<noteq> []"
    by simp_all
  have run: "speechify_run speechify_props
               [Trigger, SynthSettled 0 (Resolved overloaded_response), Trigger]
               speechify_mounted = speechify_generateSpeech speechify_props False ?s"
    "higgs_run higgs_props [Trigger, HealthSettled 0 (Rejected NonError), Trigger]
       higgs_mounted = higgs_generateSpeech higgs_props False ?h"
    using s(2) h(2) by (simp_all add: speechify_run_def higgs_run_def)
  from entry_to_InFlight[OF s(1) nonempty(1) h(1) nonempty(2), of False] s(3) h(3)
  show ?thesis
    unfolding run by (simp add: Let_def)
qed

text \<open>
  C7. The claim has the duration at 0 in every state but \<open>Ready\<close>. Nothing in either hook
  resets \<^verbatim>\<open>speechDuration\<close>: after a generation that succeeded, a new trigger whose backend
  call fails ends in \<open>Failed\<close> with the duration of the earlier generation, and the
  trigger itself is in flight with it.
\<close>

theorem failed_retrigger_keeps_duration:
  "generationState (speechify_run speechify_props
      [Trigger, SynthSettled 0 (Resolved audio_response), Decoded 0 (Inr 2), LoadEnd 0 True,
       Trigger, SynthSettled 0 (Resolved overloaded_response)] speechify_mounted) = Failed \<and>
   speechDuration (speechify_run speechify_props
      [Trigger, SynthSettled 0 (Resolved audio_response), Decoded 0 (Inr 2), LoadEnd 0 True,
       Trigger, SynthSettled 0 (Resolved overloaded_response)] speechify_mounted) = 2 \<and>
   generationState (speechify_run speechify_props
      [Trigger, SynthSettled 0 (Resolved audio_response), Decoded 0 (Inr 2), LoadEnd 0 True,
       Trigger] speechify_mounted) = InFlight \<and>
   speechDuration (speechify_run speechify_props
      [Trigger, SynthSettled 0 (Resolved audio_response), Decoded 0 (Inr 2), LoadEnd 0 True,
       Trigger] speechify_mounted) = 2"
  by (simp add: speechify_run_def speechify_mount_def speechify_initial_def
      speechify_generateSpeech_def speechify_settle_def ok_def decode_def convert_def
      finally_block_def onloadend_def remove_nth_def generationState_def speechify_catch_def)

text \<open>
  C7, amended. In every state reached from the mount, in both hooks, the duration is a
  non-negative number (the decoder reporting non-negative durations), and it is 0 as long
  as no decode has succeeded, whatever the state. Only a successful decode changes it, to
  the duration of the decoded buffer; it keeps that value through later \<open>InFlight\<close> and
  \<open>Failed\<close> states.
\<close>

theorem duration_set_by_decode_only:
  "(list_all nonnegative_decode es \<longrightarrow>
      0 \<le> speechDuration (speechify_run p es (speechify_mount key speechify_initial)) \<and>
      0 \<le> speechDuration (higgs_run q es (higgs_mount c higgs_initial))) \<and>
   (list_all (\<lambda>e. decoded_duration e = None) es \<longrightarrow>
      speechDuration (speechify_run p es (speechify_mount key speechify_initial)) = 0 \<and>
      speechDuration (higgs_run q es (higgs_mount c higgs_initial)) = 0) \<and>
   (speechDuration (speechify_step p s e) \<noteq> speechDuration s \<longrightarrow>
      decoded_duration e = Some (speechDuration (speechify_step p s e))) \<and>
   (speechDuration (higgs_step q h e) \<noteq> speechDuration h \<longrightarrow>
      decoded_duration e = Some (speechDuration (higgs_step q h e)))"
proof -
  have "list_all nonnegative_decode es \<longrightarrow>
          0 \<le> speechDuration (speechify_run p es (speechify_mount key speechify_initial)) \<and>
          0 \<le> speechDuration (higgs_run q es (higgs_mount c higgs_initial))"
    and "list_all (\<lambda>e. decoded_duration e = None) es \<longrightarrow>
          speechDuration (speechify_run p es (speechify_mount key speechify_initial)) = 0 \<and>
          speechDuration (higgs_run q es (higgs_mount c higgs_initial)) = 0"
    using duration_speechify_run[of es "speechify_mount key speechify_initial" p]
      duration_higgs_run[of es "higgs_mount c higgs_initial" q]
    by (simp_all add: duration_mount)
  moreover have
    "speechDuration (speechify_step p s e) \<noteq> speechDuration s \<longrightarrow>
       decoded_duration e = Some (speechDuration (speechify_step p s e))"
    "speechDuration (higgs_step q h e) \<noteq> speechDuration h \<longrightarrow>
       decoded_duration e = Some (speechDuration (higgs_step q h e))"
    using duration_speechify_step[of p s e] duration_higgs_step[of q h e]
    by blast+
  ultimately show ?thesis
    by blast
qed

theorem duration_set_by_decode_only_witness:
  "0 \<le> speechDuration (speechify_run speechify_props
      [Trigger, SynthSettled 0 (Resolved audio_response), Decoded 0 (Inr 2), LoadEnd 0 True]
      speechify_mounted) \<and>
   0 \<le> speechDuration (higgs_run higgs_props
      [Trigger, SynthSettled 0 (Resolved audio_response), Decoded 0 (Inr 2), LoadEnd 0 True]
      higgs_mounted) \<and>
   speechDuration (speechify_run speechify_props
      [Trigger, SynthSettled 0 (Resolved overloaded_response), Trigger] speechify_mounted) = 0 \<and>
   speechDuration (higgs_run higgs_props
      [Trigger, SynthSettled 0 (Resolved overloaded_response), Trigger] higgs_mounted) = 0 \<and>
   speechDuration (speechify_step speechify_props
      (speechify_run speechify_props [Trigger, SynthSettled 0 (Resolved audio_response)]
         speechify_mounted) (Decoded 0 (Inr 2))) \<noteq>
   speechDuration (speechify_run speechify_props
      [Trigger, SynthSettled 0 (Resolved audio_response)] speechify_mounted) \<and>
   decoded_duration (Decoded 0 (Inr 2)) = Some 2 \<and>
   speechDuration (higgs_step higgs_props
      (higgs_run higgs_props [Trigger, HealthSettled 0 (Resolved health_response),
         SynthSettled 0 (Resolved audio_response)] higgs_mounted) (Decoded 0 (Inr 2))) \<noteq>
   speechDuration (higgs_run higgs_props [Trigger, HealthSettled 0 (Resolved health_response),
         SynthSettled 0 (Resolved audio_response)] higgs_mounted)"
proof -
  let ?c = "\<lparr>cfg_baseUrl = JUndefined, cfg_temperature = JUndefined, cfg_topP = JUndefined,
             cfg_topK = JUndefined, cfg_maxNewTokens = JUndefined\<rparr>"
  let ?s = "speechify_run speechify_props [Trigger, SynthSettled 0 (Resolved audio_response)]
              speechify_mounted"
  let ?h = "higgs_run higgs_props [Trigger, HealthSettled 0 (Resolved health_response),
              SynthSettled 0 (Resolved audio_response)] higgs_mounted"
  have 1: "list_all nonnegative_decode
             [Trigger, SynthSettled 0 (Resolved audio_response), Decoded 0 (Inr 2), LoadEnd 0 True]"
    by (simp add: nonnegative_decode_def decoded_duration_def)
  have 2: "list_all (\<lambda>e. decoded_duration e = None)
             [Trigger, SynthSettled 0 (Resolved overloaded_response), Trigger]"
    by (simp add: decoded_duration_def)
  have 3: "speechDuration (speechify_step speechify_props ?s (Decoded 0 (Inr 2))) \<noteq>
           speechDuration ?s"
    by (simp add: speechify_run_def speechify_mount_def speechify_initial_def
        speechify_generateSpeech_def speechify_settle_def ok_def decode_def convert_def
        finally_block_def)
  have 4: "speechDuration (higgs_step higgs_props ?h (Decoded 0 (Inr 2))) \<noteq> speechDuration ?h"
    by (simp add: higgs_run_def higgs_mount_def higgs_initial_def higgs_generateSpeech_def
        higgs_settle_def health_settle_def ok_def decode_def convert_def finally_block_def
        Let_def)
  from duration_set_by_decode_only[where es = "[Trigger, SynthSettled 0 (Resolved audio_response),
        Decoded 0 (Inr 2), LoadEnd 0 True]" and p = speechify_props and key = "''key''"
        and q = higgs_props and c = ?c] 1
  have a: "0 \<le> speechDuration (speechify_run speechify_props
      [Trigger, SynthSettled 0 (Resolved audio_response), Decoded 0 (Inr 2), LoadEnd 0 True]
      speechify_mounted)"
    "0 \<le> speechDuration (higgs_run higgs_props
      [Trigger, SynthSettled 0 (Resolved audio_response), Decoded 0 (Inr 2), LoadEnd 0 True]
      higgs_mounted)"
    by blast+
  from duration_set_by_decode_only[where es = "[Trigger, SynthSettled 0 (Resolved overloaded_response),
        Trigger]" and p = speechify_props and key = "''key''" and q = higgs_props and c = ?c
        and s = ?s and h = ?h and e = "Decoded 0 (Inr 2)"] 2 3 4
  have b: "speechDuration (speechify_run speechify_props
      [Trigger, SynthSettled 0 (Resolved overloaded_response), Trigger] speechify_mounted) = 0"
    "speechDuration (higgs_run higgs_props
      [Trigger, SynthSettled 0 (Resolved overloaded_response), Trigger] higgs_mounted) = 0"
    "decoded_duration (Decoded 0 (Inr 2)) =
       Some (speechDuration (speechify_step speechify_props ?s (Decoded 0 (Inr 2))))"
    by blast+
  have "speechDuration (speechify_step speechify_props ?s (Decoded 0 (Inr 2))) = 2"
    by (simp add: speechify_run_def speechify_mount_def speechify_initial_def
        speechify_generateSpeech_def speechify_settle_def ok_def decode_def convert_def
        finally_block_def)
  with a b 3 4 show ?thesis
    by simp
qed

text \<open>
  C8. The bytes the backend returned can be read back from the published path: the path
  is the \<^verbatim>\<open>data:\<close> URL the reader made of the blob, and decoding it gives the bytes of the
  response body, for every byte sequence, in both hooks. The content type of the response
  (the type of the blob) must be free of commas, since a \<^verbatim>\<open>data:\<close> URL is split at its first
  comma.
\<close>

theorem path_holds_the_bytes:
  assumes "CHR '','' \<notin> set (contentType r)"
    and "speechify_admits p s" and "audioContextRef s \<noteq> None"
    and "higgs_admits q h" and "audioContextRef h \<noteq> None"
    and "ok r" and "health_settle hr"
  shows "dataURL_bytes (readAsDataURL (response_blob r)) = Some (bytes r) \<and>
         Option.bind (narrationAudioPath (speechify_run p
                        [Trigger, SynthSettled (length (tasks s)) (Resolved r),
                         Decoded (length (tasks s)) (Inr d), LoadEnd (length (readers s)) True] s))
           dataURL_bytes = Some (bytes r) \<and>
         Option.bind (narrationAudioPath (higgs_run q
                        [Trigger, HealthSettled (length (tasks h)) hr,
                         SynthSettled (length (tasks h)) (Resolved r),
                         Decoded (length (tasks h)) (Inr d), LoadEnd (length (readers h)) True] h))
           dataURL_bytes = Some (bytes r)"
proof -
  from assms(2) obtain svc where svc: "speechifyServiceRef s = Some svc"
    and idle: "\<not> isGenerating s" and nonempty: "textProp p \<noteq> []"
    by (auto simp: speechify_admits_def)
  from assms(4) obtain hsvc where hsvc: "higgsServiceRef h = Some hsvc"
    and hidle: "\<not> isGenerating h" and hnonempty: "textProp q \<noteq> []"
    by (auto simp: higgs_admits_def)
  from assms(1) have "CHR '','' \<notin> set (blob_type (response_blob r))"
    by (simp add: response_blob_def)
  from dataURL_roundtrip[OF this]
  have reads_back: "dataURL_bytes (readAsDataURL (response_blob r)) = Some (bytes r)"
    by (simp add: response_blob_def)
  then show ?thesis
    by (simp add: speechify_success[OF svc idle nonempty assms(3) assms(6)]
        higgs_success[OF hsvc hidle hnonempty assms(5) assms(7) assms(6)])
qed

theorem path_holds_the_bytes_witness:
  "narrationAudioPath (speechify_run speechify_props
      [Trigger, SynthSettled 0 (Resolved audio_response), Decoded 0 (Inr 2), LoadEnd 0 True]
      speechify_mounted) = Some ''data:audio/mpeg;base64,SUQz'' \<and>
   dataURL_bytes ''data:audio/mpeg;base64,SUQz'' = Some ''ID3'' \<and>
   Option.bind (narrationAudioPath (higgs_run higgs_props
      [Trigger, HealthSettled 0 (Resolved health_response),
       SynthSettled 0 (Resolved audio_response), Decoded 0 (Inr 2), LoadEnd 0 True]
      higgs_mounted)) dataURL_bytes = Some ''ID3''"
proof -
  have 1: "CHR '','' \<notin> set (contentType audio_response)"
    by simp
  have 2: "speechify_admits speechify_props speechify_mounted"
    by (simp add: speechify_admits_def speechify_mount_def speechify_initial_def)
  have 3: "audioContextRef speechify_mounted \<noteq> None"
    by (simp add: speechify_mount_def)
  have 4: "higgs_admits higgs_props higgs_mounted"
    by (simp add: higgs_admits_def higgs_mount_def higgs_initial_def Let_def)
  have 5: "audioContextRef higgs_mounted \<noteq> None"
    by (simp add: higgs_mount_def Let_def)
  have 6: "ok audio_response"
    by (simp add: ok_def)
  have 7: "health_settle (Resolved health_response)"
    by (simp add: health_settle_def ok_def)
  have t: "tasks speechify_mounted = []" "readers speechify_mounted = []"
    "tasks higgs_mounted = []" "readers higgs_mounted = []"
    by (simp_all add: speechify_mount_def speechify_initial_def higgs_mount_def
        higgs_initial_def Let_def)
  have url: "readAsDataURL (response_blob audio_response) = ''data:audio/mpeg;base64,SUQz''"
    by (simp add: readAsDataURL_def response_blob_def sextet_char_def alphabet_def)
  have path: "narrationAudioPath (speechify_run speechify_props
      [Trigger, SynthSettled 0 (Resolved audio_response), Decoded 0 (Inr 2), LoadEnd 0 True]
      speechify_mounted) = Some (readAsDataURL (response_blob audio_response))"
    using speechify_success[of speechify_mounted "new_SpeechifyService ''key''" speechify_props
        audio_response 2] 3 6
    unfolding t by (simp add: speechify_mount_def speechify_initial_def)
  show ?thesis
    using path_holds_the_bytes[OF 1 2 3 4 5 6 7, of 2] path
    unfolding t url by simp
qed

text \<open>
  C9. The claim has \<^verbatim>\<open>voice_id = v\<close> whenever a voice is given. The code writes
  \<^verbatim>\<open>voiceId || 'default'\<close>, so a voice that is given as the empty string is sent as
  \<^verbatim>\<open>default\<close> (and likewise an empty language as \<^verbatim>\<open>en-US\<close>).
\<close>

theorem empty_voice_sent_as_default:
  "get_prop (the (body (speechify_request (new_SpeechifyService ''key'') ''Hello'' (Some [])
                          (Some [])))) ''voice_id'' = JString ''default'' \<and>
   get_prop (the (body (speechify_request (new_SpeechifyService ''key'') ''Hello'' (Some [])
                          (Some [])))) ''language'' = JString ''en-US'' \<and>
   JString ''default'' \<noteq> JString [] \<and> JString ''en-US'' \<noteq> JString []"
  by (simp add: speechify_request_def get_prop_def or_default_def)

text \<open>
  C9, amended. Every call of \<^verbatim>\<open>SpeechifyService.textToSpeech\<close> makes exactly one request:
  a \<^verbatim>\<open>POST\<close> to \<^verbatim>\<open>{base}/v1/audio/stream\<close> with the headers
  \<^verbatim>\<open>Authorization: Bearer <key>\<close> and \<^verbatim>\<open>Accept: audio/mpeg\<close> and a JSON body with
  \<^verbatim>\<open>input = t\<close>, \<^verbatim>\<open>voice_id = v\<close> (or \<^verbatim>\<open>default\<close> when \<open>v\<close> is absent or empty) and
  \<^verbatim>\<open>language = l\<close> (or \<^verbatim>\<open>en-US\<close> when \<open>l\<close> is absent or empty); on a response with a
  status from 200 to 299 it returns the bytes of the body unchanged.
\<close>

theorem speechify_wire_contract:
  "(\<exists>rq. fst (speechify_textToSpeech svc fetch t v l) = [rq] \<and>
         method rq = ''POST'' \<and>
         url rq = baseUrl svc @ ''/v1/audio/stream'' \<and>
         map_of (headers rq) ''Authorization'' = Some (''Bearer '' @ apiKey svc) \<and>
         map_of (headers rq) ''Accept'' = Some ''audio/mpeg'' \<and>
         (\<exists>fields. body rq = Some fields \<and> map fst fields = [''input'', ''voice_id'', ''language''] \<and>
            get_prop fields ''input'' = JString t \<and>
            get_prop fields ''voice_id'' =
              JString (case v of None \<Rightarrow> ''default'' | Some x \<Rightarrow> if x = [] then ''default'' else x) \<and>
            get_prop fields ''language'' =
              JString (case l of None \<Rightarrow> ''en-US'' | Some x \<Rightarrow> if x = [] then ''en-US'' else x)) \<and>
         (fetch rq = Resolved r \<and> ok r \<longrightarrow>
            (\<exists>b. snd (speechify_textToSpeech svc fetch t v l) = Inr b \<and> blob_bytes b = bytes r)))"
  by (simp add: speechify_textToSpeech_def speechify_request_def speechify_settle_def
      get_prop_def or_default_def Let_def)

theorem speechify_wire_contract_witness:
  "fst (speechify_textToSpeech (new_SpeechifyService ''key'')
          (\<lambda>rq. Resolved audio_response) ''Hello'' (Some ''oliver'') None) =
     [\<lparr>url = ''https://api.sws.speechify.com/v1/audio/stream'', method = ''POST'',
       headers = [(''Authorization'', ''Bearer key''), (''Content-Type'', ''application/json''),
                  (''Accept'', ''audio/mpeg'')],
       body = Some [(''input'', JString ''Hello''), (''voice_id'', JString ''oliver''),
                    (''language'', JString ''en-US'')]\<rparr>] \<and>
   (\<exists>b. snd (speechify_textToSpeech (new_SpeechifyService ''key'')
               (\<lambda>rq. Resolved audio_response) ''Hello'' (Some ''oliver'') None) = Inr b \<and>
        blob_bytes b = ''ID3'')"
proof -
  have "ok audio_response"
    by (simp add: ok_def)
  with speechify_wire_contract[of "new_SpeechifyService ''key''" "\<lambda>rq. Resolved audio_response"
      "''Hello''" "Some ''oliver''" None audio_response]
  have "\<exists>b. snd (speechify_textToSpeech (new_SpeechifyService ''key'')
               (\<lambda>rq. Resolved audio_response) ''Hello'' (Some ''oliver'') None) = Inr b \<and>
        blob_bytes b = ''ID3''"
    by auto
  then show ?thesis
    by (simp add: speechify_textToSpeech_def speechify_request_def new_SpeechifyService_def
        or_default_def Let_def)
qed



end
